theory Spec2Isabelle
  imports
    Main
    "HOL-Library.Char_ord"
    "HOL-Library.List_Lexorder"
    "HOL-Library.Multiset"
    "HOL-Library.Word"
begin

unbundle bit_operations_syntax

section \<open>The parts of Go's \<^verbatim>\<open>path\<close> package that main.go calls\<close>

text \<open>
  main.go works on Go strings (byte sequences), modelled as \<^typ>\<open>string\<close>. It calls
  \<^verbatim>\<open>path.IsAbs\<close>, \<^verbatim>\<open>path.Clean\<close> (through \<^verbatim>\<open>path.Join\<close> and \<^verbatim>\<open>path.Dir\<close>) and
  \<^verbatim>\<open>path.Ext\<close> of the Go standard library. They are modelled from the library's documented
  rules: a path is cut at its slashes, empty and \<^verbatim>\<open>.\<close> elements are dropped, a \<^verbatim>\<open>..\<close>
  element removes the element before it, a \<^verbatim>\<open>..\<close> that begins a rooted path is dropped,
  and the empty result is \<^verbatim>\<open>.\<close>.
\<close>

definition IsAbs :: "string \<Rightarrow> bool" where
  "IsAbs p = (case p of [] \<Rightarrow> False | c # _ \<Rightarrow> c = CHR ''/'')"

text \<open>The elements between the slashes of a path; a path with n slashes has n + 1 elements.\<close>

fun splitSlash :: "string \<Rightarrow> string list" where
  "splitSlash [] = [[]]"
| "splitSlash (c # cs) =
     (if c = CHR ''/'' then [] # splitSlash cs
      else (case splitSlash cs of [] \<Rightarrow> [[c]] | s # ss \<Rightarrow> (c # s) # ss))"

text \<open>\<^verbatim>\<open>strings.Join(elems, "/")\<close>.\<close>

fun joinSlash :: "string list \<Rightarrow> string" where
  "joinSlash [] = []"
| "joinSlash [x] = x"
| "joinSlash (x # y # ys) = x @ CHR ''/'' # joinSlash (y # ys)"

text \<open>One element of the path met by \<^verbatim>\<open>Clean\<close>, with the elements kept so far.\<close>

definition cleanElem :: "bool \<Rightarrow> string list \<Rightarrow> string \<Rightarrow> string list" where
  "cleanElem rooted out e =
     (if e = [] \<or> e = ''.'' then out
      else if e = ''..'' then
        (if out \<noteq> [] \<and> last out \<noteq> ''..'' then butlast out
         else if rooted then out
         else out @ [''..''])
      else out @ [e])"

definition cleanElems :: "bool \<Rightarrow> string list \<Rightarrow> string list" where
  "cleanElems rooted es = foldl (cleanElem rooted) [] es"

definition Clean :: "string \<Rightarrow> string" where
  "Clean p =
     (if p = [] then ''.''
      else
        (let rooted = IsAbs p;
             out = cleanElems rooted (splitSlash p)
         in if rooted then CHR ''/'' # joinSlash out
            else if out = [] then ''.''
            else joinSlash out))"

text \<open>
  \<^verbatim>\<open>path.Join\<close>: leading empty elements are ignored, the rest is joined with slashes and
  cleaned; when every element is empty the result is the empty string.
\<close>

definition Join :: "string list \<Rightarrow> string" where
  "Join elems =
     (case dropWhile (\<lambda>e. e = []) elems of
        [] \<Rightarrow> []
      | es \<Rightarrow> Clean (joinSlash es))"

text \<open>\<^verbatim>\<open>path.Split\<close> cuts after the last slash; \<^verbatim>\<open>path.Dir\<close> cleans the first half.\<close>

definition dirPart :: "string \<Rightarrow> string" where
  "dirPart p = rev (dropWhile (\<lambda>c. c \<noteq> CHR ''/'') (rev p))"

definition Dir :: "string \<Rightarrow> string" where
  "Dir p = Clean (dirPart p)"

text \<open>
  \<^verbatim>\<open>path.Ext\<close> scans from the end of the path down to the last slash and returns the
  suffix that starts at the first dot it meets.
\<close>

fun extScan :: "string \<Rightarrow> string \<Rightarrow> string" where
  "extScan [] acc = []"
| "extScan (c # cs) acc =
     (if c = CHR ''/'' then []
      else if c = CHR ''.'' then c # acc
      else extScan cs (c # acc))"

definition Ext :: "string \<Rightarrow> string" where
  "Ext p = extScan (rev p) []"

section \<open>Configuration and path translation\<close>

text \<open>
  The three package-level variables of main.go, set once from the command line
  (\<^verbatim>\<open>-p\<close>, default \<^verbatim>\<open>/\<close>; \<^verbatim>\<open>-r\<close>, default \<^verbatim>\<open>.\<close>; \<^verbatim>\<open>-xa\<close>, default empty).
\<close>

record config =
  proxyRoot :: string
  jailRoot :: string
  accelRedirect :: string

definition startsWith :: "string \<Rightarrow> string \<Rightarrow> bool" where
  "startsWith s start =
     (if length s < length start then False
      else take (length start) s = start)"

definition removeIfStartsWith :: "string \<Rightarrow> string \<Rightarrow> string" where
  "removeIfStartsWith s start =
     (if \<not> startsWith s start then s
      else drop (length start) s)"

definition translateForProxy :: "config \<Rightarrow> string \<Rightarrow> string" where
  "translateForProxy cfg s = Join [proxyRoot cfg, removeIfStartsWith s (jailRoot cfg)]"

text \<open>
  The first two statements of \<^verbatim>\<open>processProxiedRequest\<close> and of \<^verbatim>\<open>generateIndexHtml\<close>:
  the request path is stripped of the proxy root and joined onto the jail root.
\<close>

definition relPathOf :: "config \<Rightarrow> string \<Rightarrow> string" where
  "relPathOf cfg upath = removeIfStartsWith upath (proxyRoot cfg)"

definition localPathOf :: "config \<Rightarrow> string \<Rightarrow> string" where
  "localPathOf cfg upath = Join [jailRoot cfg, relPathOf cfg upath]"

section \<open>Directory entries and the three comparators\<close>

text \<open>
  \<^verbatim>\<open>os.FileInfo\<close> as main.go reads it: \<^verbatim>\<open>Name()\<close>, \<^verbatim>\<open>Size()\<close> (an int64),
  \<^verbatim>\<open>Mode()\<close> (the 32-bit \<^verbatim>\<open>os.FileMode\<close>) and \<^verbatim>\<open>ModTime()\<close> (an instant, here in
  nanoseconds; \<^verbatim>\<open>Before\<close> and \<^verbatim>\<open>After\<close> compare instants).
\<close>

record fileInfo =
  Name :: string
  Size :: int
  Mode :: "32 word"
  ModTime :: int

definition ModeDir :: "32 word" where "ModeDir = push_bit 31 1"
definition ModeSymlink :: "32 word" where "ModeSymlink = push_bit 27 1"
definition ModeDevice :: "32 word" where "ModeDevice = push_bit 26 1"
definition ModeNamedPipe :: "32 word" where "ModeNamedPipe = push_bit 25 1"
definition ModeSocket :: "32 word" where "ModeSocket = push_bit 24 1"
definition ModeCharDevice :: "32 word" where "ModeCharDevice = push_bit 21 1"
definition ModeIrregular :: "32 word" where "ModeIrregular = push_bit 19 1"

definition ModeType :: "32 word" where
  "ModeType = ModeDir OR ModeSymlink OR ModeNamedPipe OR ModeSocket OR ModeDevice
              OR ModeCharDevice OR ModeIrregular"

definition IsDir :: "fileInfo \<Rightarrow> bool" where
  "IsDir fi = (Mode fi AND ModeDir \<noteq> 0)"

definition IsRegular :: "fileInfo \<Rightarrow> bool" where
  "IsRegular fi = (Mode fi AND ModeType = 0)"

datatype sortBy = sortByName | sortByDate | sortBySize

datatype sortDirection = sortAscending | sortDescending

text \<open>
  The three \<^verbatim>\<open>Less\<close> methods, on the two entries instead of their indices. Go compares
  strings byte by byte, which is the lexicographic order of \<^typ>\<open>string\<close>.
\<close>

definition ByName_Less :: "sortDirection \<Rightarrow> fileInfo \<Rightarrow> fileInfo \<Rightarrow> bool" where
  "ByName_Less dir a b =
     (if IsDir a \<and> \<not> IsDir b then True
      else if \<not> IsDir a \<and> IsDir b then False
      else if dir = sortAscending then Name a < Name b
      else Name a > Name b)"

definition ByDate_Less :: "sortDirection \<Rightarrow> fileInfo \<Rightarrow> fileInfo \<Rightarrow> bool" where
  "ByDate_Less dir a b =
     (if IsDir a \<and> \<not> IsDir b then True
      else if \<not> IsDir a \<and> IsDir b then False
      else if dir = sortAscending then ModTime a < ModTime b
      else ModTime a > ModTime b)"

definition BySize_Less :: "sortDirection \<Rightarrow> fileInfo \<Rightarrow> fileInfo \<Rightarrow> bool" where
  "BySize_Less dir a b =
     (if IsDir a \<and> \<not> IsDir b then True
      else if \<not> IsDir a \<and> IsDir b then False
      else if dir = sortAscending then Size a < Size b
      else Size a > Size b)"

text \<open>The comparator that the \<^verbatim>\<open>switch sortBy\<close> before \<^verbatim>\<open>sort.Sort\<close> selects.\<close>

fun entryLess :: "sortBy \<Rightarrow> sortDirection \<Rightarrow> fileInfo \<Rightarrow> fileInfo \<Rightarrow> bool" where
  "entryLess sortByName dir = ByName_Less dir"
| "entryLess sortByDate dir = ByDate_Less dir"
| "entryLess sortBySize dir = BySize_Less dir"

text \<open>
  The comparison by the chosen key alone, which each \<^verbatim>\<open>Less\<close> reaches when both
  entries are in the same is-directory class.
\<close>

fun keyLess :: "sortBy \<Rightarrow> sortDirection \<Rightarrow> fileInfo \<Rightarrow> fileInfo \<Rightarrow> bool" where
  "keyLess sortByName sortAscending a b = (Name a < Name b)"
| "keyLess sortByName sortDescending a b = (Name a > Name b)"
| "keyLess sortByDate sortAscending a b = (ModTime a < ModTime b)"
| "keyLess sortByDate sortDescending a b = (ModTime a > ModTime b)"
| "keyLess sortBySize sortAscending a b = (Size a < Size b)"
| "keyLess sortBySize sortDescending a b = (Size a > Size b)"

text \<open>
  \<^verbatim>\<open>sort.Sort\<close> belongs to the Go standard library and its algorithm changes between Go
  releases; its documentation promises a rearrangement of the slice that is in ascending
  order as determined by \<^verbatim>\<open>Less\<close>, and no stability. \<^verbatim>\<open>sort.IsSorted\<close> is the library's
  own test of that order: no element is less than the one before it.
\<close>

fun IsSorted :: "('a \<Rightarrow> 'a \<Rightarrow> bool) \<Rightarrow> 'a list \<Rightarrow> bool" where
  "IsSorted lt [] = True"
| "IsSorted lt [x] = True"
| "IsSorted lt (x # y # ys) = (\<not> lt y x \<and> IsSorted lt (y # ys))"

definition sortResult :: "('a \<Rightarrow> 'a \<Rightarrow> bool) \<Rightarrow> 'a list \<Rightarrow> 'a list \<Rightarrow> bool" where
  "sortResult lt xs ys = (mset ys = mset xs \<and> IsSorted lt ys)"

text \<open>
  The library's \<^verbatim>\<open>insertionSort\<close>, which \<^verbatim>\<open>sort.Sort\<close> runs on a short slice: each
  element in turn is swapped towards the front while it is less than its predecessor. The
  sorted prefix is kept nearest element first.
\<close>

fun sinkLeft :: "('a \<Rightarrow> 'a \<Rightarrow> bool) \<Rightarrow> 'a \<Rightarrow> 'a list \<Rightarrow> 'a list" where
  "sinkLeft lt x [] = [x]"
| "sinkLeft lt x (p # ps) = (if lt x p then p # sinkLeft lt x ps else x # p # ps)"

definition insertionSort :: "('a \<Rightarrow> 'a \<Rightarrow> bool) \<Rightarrow> 'a list \<Rightarrow> 'a list" where
  "insertionSort lt xs = rev (foldl (\<lambda>acc x. sinkLeft lt x acc) [] xs)"

section \<open>Sort mode selection\<close>

text \<open>
  The marker file \<^verbatim>\<open>.index-sort\<close> contributes its first line when it can be opened and
  scanned (\<open>Some line\<close>); a non-empty \<^verbatim>\<open>sort\<close> query value replaces it.
\<close>

definition sortStringOf :: "string option \<Rightarrow> string \<Rightarrow> string" where
  "sortStringOf marker sortStringQuery =
     (let sortString = (case marker of None \<Rightarrow> [] | Some line \<Rightarrow> line)
      in if sortStringQuery \<noteq> [] then sortStringQuery else sortString)"

text \<open>
  The \<^verbatim>\<open>switch sortString\<close>: the key and direction, and the three header links
  \<^verbatim>\<open>nameSort\<close>, \<^verbatim>\<open>dateSort\<close>, \<^verbatim>\<open>sizeSort\<close>.
\<close>

record sortMode =
  modeBy :: sortBy
  modeDir :: sortDirection
  nameSort :: string
  dateSort :: string
  sizeSort :: string

definition defaultMode :: sortMode where
  "defaultMode = \<lparr>modeBy = sortByName, modeDir = sortAscending,
     nameSort = ''name-asc'', dateSort = ''date-asc'', sizeSort = ''size-asc''\<rparr>"

definition sortSwitch :: "string \<Rightarrow> sortMode" where
  "sortSwitch sortString =
     (if sortString = ''size-desc'' then defaultMode\<lparr>modeBy := sortBySize, modeDir := sortDescending\<rparr>
      else if sortString = ''size-asc'' then
        defaultMode\<lparr>modeBy := sortBySize, modeDir := sortAscending, sizeSort := ''size-desc''\<rparr>
      else if sortString = ''date-desc'' then defaultMode\<lparr>modeBy := sortByDate, modeDir := sortDescending\<rparr>
      else if sortString = ''date-asc'' then
        defaultMode\<lparr>modeBy := sortByDate, modeDir := sortAscending, dateSort := ''date-desc''\<rparr>
      else if sortString = ''name-desc'' then defaultMode\<lparr>modeBy := sortByName, modeDir := sortDescending\<rparr>
      else if sortString = ''name-asc'' then
        defaultMode\<lparr>modeBy := sortByName, modeDir := sortAscending, nameSort := ''name-desc''\<rparr>
      else defaultMode)"

section \<open>Text written into a row\<close>

text \<open>
  \<^verbatim>\<open>html.EscapeString\<close> replaces the five characters \<^verbatim>\<open>&\<close>, \<^verbatim>\<open>'\<close>, \<^verbatim>\<open><\<close>, \<^verbatim>\<open>>\<close> and the
  double quote; \<^verbatim>\<open>strings.Replace(s, " ", "&nbsp;", -1)\<close> replaces every space.
\<close>

definition escapeChar :: "char \<Rightarrow> string" where
  "escapeChar c =
     (if c = CHR ''&'' then ''&amp;''
      else if c = CHR 0x27 then ''&#39;''
      else if c = CHR ''<'' then ''&lt;''
      else if c = CHR ''>'' then ''&gt;''
      else if c = CHR 0x22 then ''&#34;''
      else [c])"

definition EscapeString :: "string \<Rightarrow> string" where
  "EscapeString s = concat (map escapeChar s)"

definition replaceSpaces :: "string \<Rightarrow> string" where
  "replaceSpaces s = concat (map (\<lambda>c. if c = CHR '' '' then ''&nbsp;'' else [c]) s)"

text \<open>
  \<^verbatim>\<open>float64(size)\<close>: an int64 below \<open>2^53\<close> in absolute value is converted exactly; a
  larger one is rounded to 53 significant bits, ties to even. The result is an integer.
\<close>

fun bitLength :: "nat \<Rightarrow> nat" where
  "bitLength n = (if n = 0 then 0 else Suc (bitLength (n div 2)))"

declare bitLength.simps [simp del]

definition roundHalfEven :: "int \<Rightarrow> int \<Rightarrow> int" where
  "roundHalfEven num den =
     (let q = num div den; r = num mod den
      in if 2 * r > den \<or> (2 * r = den \<and> odd q) then q + 1 else q)"

definition float64 :: "int \<Rightarrow> int" where
  "float64 n =
     (let a = \<bar>n\<bar>
      in if a < 2 ^ 53 then n
         else (let e = bitLength (nat a) - 53
               in sgn n * (roundHalfEven a (2 ^ e) * 2 ^ e)))"

text \<open>Decimal digits of a natural number, as \<^verbatim>\<open>%d\<close> prints them.\<close>

definition digitChar :: "nat \<Rightarrow> char" where
  "digitChar d = ''0123456789'' ! d"

fun showNat :: "nat \<Rightarrow> string" where
  "showNat n = (if n < 10 then [digitChar n] else showNat (n div 10) @ [digitChar (n mod 10)])"

declare showNat.simps [simp del]

text \<open>
  \<^verbatim>\<open>fmt.Sprintf("%.02f", x / d)\<close> for a float \<open>x\<close> with an integer value and a divisor
  \<open>d = 2^k\<close>: the division by a power of two is exact, and the exact quotient is printed
  rounded to hundredths, ties to even, with the sign of \<open>x\<close>.
\<close>

definition hundredths :: "int \<Rightarrow> nat \<Rightarrow> nat" where
  "hundredths x k = nat (roundHalfEven (\<bar>x\<bar> * 100) (2 ^ k))"

definition Sprintf_02f :: "int \<Rightarrow> nat \<Rightarrow> string" where
  "Sprintf_02f x k =
     (let h = hundredths x k
      in (if x < 0 then ''-'' else []) @ showNat (h div 100) @ ''.''
         @ [digitChar (h mod 100 div 10), digitChar (h mod 10)])"

text \<open>The \<^verbatim>\<open>else\<close> branch of the row loop that fills \<^verbatim>\<open>sizeText\<close> for a non-directory.\<close>

definition sizeTextOf :: "int \<Rightarrow> string" where
  "sizeTextOf sz =
     (if sz < 1024 * 1024 then Sprintf_02f (float64 sz) 10 @ '' KiB''
      else if sz < 1024 * 1024 * 1024 then Sprintf_02f (float64 sz) 20 @ '' MiB''
      else Sprintf_02f (float64 sz) 30 @ '' GiB'')"

section \<open>The environment of a request\<close>

text \<open>
  What main.go asks of the operating system and of the Go library while it answers one
  request. A failing call returns its error text (\<open>Inl\<close>, or \<open>Some\<close> for \<^verbatim>\<open>os.Open\<close> of the
  directory). \<open>FirstLine\<close> is the first line of a file that opens and scans.
  \<open>Sort\<close> is \<^verbatim>\<open>sort.Sort\<close> with the comparator it is given.
\<close>

record env =
  Lstat :: "string \<Rightarrow> string + fileInfo"
  Stat :: "string \<Rightarrow> string + fileInfo"
  Readlink :: "string \<Rightarrow> string + string"
  Open :: "string \<Rightarrow> string option"
  Readdir :: "string \<Rightarrow> string + fileInfo list"
  FirstLine :: "string \<Rightarrow> string option"
  TypeByExtension :: "string \<Rightarrow> string"
  FormatTime :: "int \<Rightarrow> string"
  Sort :: "(fileInfo \<Rightarrow> fileInfo \<Rightarrow> bool) \<Rightarrow> fileInfo list \<Rightarrow> fileInfo list"

definition followSymlink :: "env \<Rightarrow> string \<Rightarrow> fileInfo \<Rightarrow> fileInfo" where
  "followSymlink e localPath dfi =
     (if Mode dfi AND ModeSymlink \<noteq> 0 then
        (let dfiPath = Join [localPath, Name dfi]
         in case Readlink e dfiPath of
              Inl err \<Rightarrow> dfi
            | Inr targetPath \<Rightarrow>
                (let targetPath' =
                       (if \<not> IsAbs targetPath then Join [localPath, targetPath] else targetPath)
                 in case Stat e targetPath' of
                      Inl err \<Rightarrow> dfi
                    | Inr tdfi \<Rightarrow> tdfi))
      else dfi)"

section \<open>Responses\<close>

text \<open>
  A table row of the listing: the fixed parent-directory row, or an entry row with the five
  strings that \<^verbatim>\<open>Fprintf\<close> puts into its template (link, name, size, modified, type).
\<close>

datatype row =
  ParentRow
| EntryRow (rowHref: string) (rowName: string) (rowSize: string) (rowModified: string)
    (rowType: string)

record page =
  pageTitle :: string
  pageNameSort :: string
  pageSizeSort :: string
  pageDateSort :: string
  pageRows :: "row list"

text \<open>
  What a handler does with the response: \<^verbatim>\<open>doError\<close>, \<^verbatim>\<open>doRedirect\<close>, the
  \<^verbatim>\<open>X-Accel-Redirect\<close> header with its content type, \<^verbatim>\<open>http.ServeFile\<close>, the listing,
  nothing at all, or a run-time panic of an index expression.
\<close>

datatype response =
  Error string nat
| Redirect string nat
| AccelRedirect string string
| ServeFile string
| Listing page
| NoResponse
| Panic

section \<open>generateIndexHtml\<close>

text \<open>The body of the row loop for an entry that is not skipped.\<close>

definition entryRow :: "env \<Rightarrow> config \<Rightarrow> string \<Rightarrow> fileInfo \<Rightarrow> row" where
  "entryRow e cfg localPath dfi0 =
     (let name = Name dfi0;
          dfiPath = Join [localPath, name];
          dfi = followSymlink e localPath dfi0;
          href = translateForProxy cfg dfiPath;
          mt = TypeByExtension e (Ext (Name dfi));
          sizeText = (if IsDir dfi then ''-'' else sizeTextOf (Size dfi));
          name' = (if IsDir dfi then name @ ''/'' else name);
          href' = (if IsDir dfi then href @ ''/'' else href)
      in EntryRow (EscapeString href') (EscapeString name')
           (replaceSpaces (EscapeString sizeText))
           (EscapeString (FormatTime e (ModTime dfi)))
           (EscapeString mt))"

text \<open>
  The loop over the sorted entries. \<^verbatim>\<open>name[0]\<close> panics on an empty name (\<open>None\<close>);
  an entry whose name begins with a dot is skipped.
\<close>

fun entryRows :: "env \<Rightarrow> config \<Rightarrow> string \<Rightarrow> fileInfo list \<Rightarrow> row list option" where
  "entryRows e cfg localPath [] = Some []"
| "entryRows e cfg localPath (dfi # fis) =
     (case Name dfi of
        [] \<Rightarrow> None
      | c # _ \<Rightarrow>
          if c = CHR ''.'' then entryRows e cfg localPath fis
          else (case entryRows e cfg localPath fis of
                  None \<Rightarrow> None
                | Some rs \<Rightarrow> Some (entryRow e cfg localPath dfi # rs)))"

text \<open>
  \<^verbatim>\<open>baseDir\<close>: the directory of the local path, taken after a trailing slash is cut off.
  The local path is indexed at its last byte, so it must not be empty.
\<close>

definition baseDirOf :: "string \<Rightarrow> string" where
  "baseDirOf localPath =
     (let baseDir = (if last localPath = CHR ''/'' then Dir (butlast localPath)
                     else Dir localPath)
      in if baseDir = [] then ''/'' else baseDir)"

definition generateIndexHtml :: "env \<Rightarrow> config \<Rightarrow> string \<Rightarrow> string \<Rightarrow> response" where
  "generateIndexHtml e cfg upath sortStringQuery =
     (let relPath = removeIfStartsWith upath (proxyRoot cfg);
          localPath = Join [jailRoot cfg, relPath];
          pathLink = Join [proxyRoot cfg, relPath]
      in if localPath = [] then Panic
         else
          (let baseDir = baseDirOf localPath;
               sortString =
                 sortStringOf (FirstLine e (Join [localPath, ''.index-sort''])) sortStringQuery;
               m = sortSwitch sortString
           in case Open e localPath of
                Some err \<Rightarrow> Error err 500
              | None \<Rightarrow>
                 (case Readdir e localPath of
                    Inl err \<Rightarrow> Error err 500
                  | Inr fis0 \<Rightarrow>
                     (let fis = Sort e (entryLess (modeBy m) (modeDir m)) fis0;
                          parent = (if startsWith baseDir (jailRoot cfg) then [ParentRow] else [])
                      in case entryRows e cfg localPath fis of
                           None \<Rightarrow> Panic
                         | Some rs \<Rightarrow>
                             Listing \<lparr>pageTitle = EscapeString pathLink,
                                      pageNameSort = nameSort m,
                                      pageSizeSort = sizeSort m,
                                      pageDateSort = dateSort m,
                                      pageRows = parent @ rs\<rparr>))))"

section \<open>processProxiedRequest and processRequest\<close>

definition symlinkRequest :: "env \<Rightarrow> config \<Rightarrow> string \<Rightarrow> response" where
  "symlinkRequest e cfg localPath =
     (let localDir = Dir localPath
      in case Readlink e localPath of
           Inl err \<Rightarrow> Error err 400
         | Inr linkDest \<Rightarrow>
             if IsAbs linkDest \<and> \<not> startsWith linkDest (jailRoot cfg)
             then Error ''Symlink points outside of jail'' 400
             else Redirect (translateForProxy cfg (Join [localDir, linkDest])) 302)"

definition statRequest :: "env \<Rightarrow> config \<Rightarrow> string \<Rightarrow> string \<Rightarrow> response" where
  "statRequest e cfg upath sortStringQuery =
     (let relPath = removeIfStartsWith upath (proxyRoot cfg);
          localPath = Join [jailRoot cfg, relPath]
      in case Stat e localPath of
           Inl err \<Rightarrow> Error err 404
         | Inr fi \<Rightarrow>
             if IsRegular fi then
               (if accelRedirect cfg \<noteq> [] then
                  AccelRedirect (Join [accelRedirect cfg, relPath])
                    (TypeByExtension e (Ext localPath))
                else ServeFile localPath)
             else if IsDir fi then generateIndexHtml e cfg upath sortStringQuery
             else NoResponse)"

definition processProxiedRequest :: "env \<Rightarrow> config \<Rightarrow> string \<Rightarrow> string \<Rightarrow> response" where
  "processProxiedRequest e cfg upath sortStringQuery =
     (let relPath = removeIfStartsWith upath (proxyRoot cfg);
          localPath = Join [jailRoot cfg, relPath]
      in case Lstat e localPath of
           Inr fi \<Rightarrow>
             if Mode fi AND ModeSymlink \<noteq> 0 then symlinkRequest e cfg localPath
             else statRequest e cfg upath sortStringQuery
         | Inl err \<Rightarrow> statRequest e cfg upath sortStringQuery)"

text \<open>\<^verbatim>\<open>processRequest\<close>, from the parsed path and the \<^verbatim>\<open>sort\<close> value of the query.\<close>

definition processRequest :: "env \<Rightarrow> config \<Rightarrow> string \<Rightarrow> string \<Rightarrow> response" where
  "processRequest e cfg upath sortStringQuery =
     (if startsWith upath (proxyRoot cfg) then processProxiedRequest e cfg upath sortStringQuery
      else NoResponse)"

section \<open>The library's sort on a slice of thirteen elements\<close>


















section \<open>Notions used in the statements\<close>

text \<open>
  A path element that \<^verbatim>\<open>Clean\<close> keeps as it is, and the rooted path made of such elements.
\<close>

definition plainElem :: "string \<Rightarrow> bool" where
  "plainElem s = (s \<noteq> [] \<and> CHR ''/'' \<notin> set s \<and> s \<noteq> ''.'' \<and> s \<noteq> ''..'')"

definition absPath :: "string list \<Rightarrow> string" where
  "absPath segs = CHR ''/'' # joinSlash segs"

text \<open>
  A path is under a root at an element boundary when it is the root, or continues it after
  a slash (the root \<^verbatim>\<open>/\<close> already ends in one).
\<close>

definition underRoot :: "string \<Rightarrow> string \<Rightarrow> bool" where
  "underRoot root p = (p = root \<or> startsWith p (if root = ''/'' then root else root @ ''/''))"

text \<open>An entry is skipped by the row loop when its name begins with a dot.\<close>

definition dotName :: "fileInfo \<Rightarrow> bool" where
  "dotName dfi = (take 1 (Name dfi) = ''.'')"

text \<open>The sort mode that \<^verbatim>\<open>generateIndexHtml\<close> computes for a request.\<close>

definition requestMode :: "env \<Rightarrow> config \<Rightarrow> string \<Rightarrow> string \<Rightarrow> sortMode" where
  "requestMode e cfg upath q =
     sortSwitch (sortStringOf (FirstLine e (Join [localPathOf cfg upath, ''.index-sort''])) q)"


section \<open>Concrete configurations and directory trees\<close>

text \<open>
  The configuration of the shipped upstart job (\<^verbatim>\<open>-p /ftp -xa /ftp-private -r /home/ftp\<close>)
  and the configuration of the flag defaults.
\<close>

definition cfgFtp :: config where
  "cfgFtp = \<lparr>proxyRoot = ''/ftp'', jailRoot = ''/home/ftp'', accelRedirect = ''/ftp-private''\<rparr>"

definition cfgDefault :: config where
  "cfgDefault = \<lparr>proxyRoot = ''/'', jailRoot = ''.'', accelRedirect = []\<rparr>"

definition regularFile :: "string \<Rightarrow> int \<Rightarrow> int \<Rightarrow> fileInfo" where
  "regularFile n sz t = \<lparr>Name = n, Size = sz, Mode = 420, ModTime = t\<rparr>"

definition directory :: "string \<Rightarrow> int \<Rightarrow> fileInfo" where
  "directory n t = \<lparr>Name = n, Size = 4096, Mode = ModeDir OR 493, ModTime = t\<rparr>"

definition symlink :: "string \<Rightarrow> int \<Rightarrow> fileInfo" where
  "symlink n t = \<lparr>Name = n, Size = 16, Mode = ModeSymlink OR 511, ModTime = t\<rparr>"

text \<open>
  An empty file system: every call fails. Slices are sorted by the library's insertion
  sort, times are printed as their number, no extension has a known type.
\<close>

definition noFiles :: env where
  "noFiles =
     \<lparr>Lstat = (\<lambda>p. Inl ''no such file or directory''),
      Stat = (\<lambda>p. Inl ''no such file or directory''),
      Readlink = (\<lambda>p. Inl ''no such file or directory''),
      Open = (\<lambda>p. Some ''no such file or directory''),
      Readdir = (\<lambda>p. Inl ''no such file or directory''),
      FirstLine = (\<lambda>p. None),
      TypeByExtension = (\<lambda>x. []),
      FormatTime = (\<lambda>t. showNat (nat t)),
      Sort = insertionSort\<rparr>"

text \<open>A symlink \<^verbatim>\<open>/home/ftp/link\<close> with the given target, and nothing else.\<close>

definition linkAt :: "string \<Rightarrow> env" where
  "linkAt target =
     noFiles\<lparr>Lstat := (\<lambda>p. if p = ''/home/ftp/link'' then Inr (symlink ''link'' 0)
                          else Inl ''no such file or directory''),
             Readlink := (\<lambda>p. if p = ''/home/ftp/link'' then Inr target
                             else Inl ''invalid argument'')\<rparr>"

text \<open>A directory at the given local path with the given entries, in read order.\<close>

definition dirAt :: "string \<Rightarrow> fileInfo list \<Rightarrow> env" where
  "dirAt d entries =
     noFiles\<lparr>Lstat := (\<lambda>p. if p = d then Inr (directory d 0)
                          else Inl ''no such file or directory''),
             Stat := (\<lambda>p. if p = d then Inr (directory d 0)
                         else Inl ''no such file or directory''),
             Open := (\<lambda>p. if p = d then None else Some ''no such file or directory''),
             Readdir := (\<lambda>p. if p = d then Inr entries else Inl ''not a directory'')\<rparr>"

text \<open>
  \<^verbatim>\<open>/home/ftp/music\<close>: a marker file that asks for \<^verbatim>\<open>date-desc\<close>, and three songs read in
  the order b, a, c with modification times 30, 10, 20.
\<close>

definition musicDir :: env where
  "musicDir =
     (dirAt ''/home/ftp/music''
        [regularFile ''b.mp3'' 2097152 30, regularFile ''.index-sort'' 10 5,
         regularFile ''a.mp3'' 512 10, regularFile ''c.mp3'' 1024 20])
       \<lparr>FirstLine := (\<lambda>p. if p = ''/home/ftp/music/.index-sort'' then Some ''date-desc''
                           else None)\<rparr>"

text \<open>
  \<^verbatim>\<open>/home/ftp\<close> itself: a file \<^verbatim>\<open>a.txt\<close> and a symlink \<^verbatim>\<open>z\<close> to the directory
  \<^verbatim>\<open>/home/ftp/music\<close>.
\<close>

definition linkedDir :: env where
  "linkedDir =
     (dirAt ''/home/ftp'' [symlink ''z'' 7, regularFile ''a.txt'' 512 3])
       \<lparr>Readlink := (\<lambda>p. if p = ''/home/ftp/z'' then Inr ''music'' else Inl ''invalid argument''),
        Stat := (\<lambda>p. if p = ''/home/ftp'' then Inr (directory ''ftp'' 0)
                      else if p = ''/home/ftp/music'' then Inr (directory ''music'' 9)
                      else Inl ''no such file or directory'')\<rparr>"

text \<open>The working directory \<^verbatim>\<open>.\<close>, the jail root of the flag defaults, with one file.\<close>

definition workDir :: env where
  "workDir = dirAt ''.'' [regularFile ''readme'' 512 1]"





text \<open>
  \<^verbatim>\<open>/home/ftp\<close> with the file \<^verbatim>\<open>a.txt\<close>, the directory \<^verbatim>\<open>music\<close> and the symlink \<^verbatim>\<open>z\<close>
  to that directory, read in the order z, a.txt, music.
\<close>

definition homeDir :: env where
  "homeDir =
     (dirAt ''/home/ftp'' [symlink ''z'' 7, regularFile ''a.txt'' 512 3, directory ''music'' 9])
       \<lparr>Readlink := (\<lambda>p. if p = ''/home/ftp/z'' then Inr ''music'' else Inl ''invalid argument''),
        Stat := (\<lambda>p. if p = ''/home/ftp'' then Inr (directory ''ftp'' 0)
                      else if p = ''/home/ftp/music'' then Inr (directory ''music'' 9)
                      else Inl ''no such file or directory'')\<rparr>"

text \<open>
  Under the working directory, the jail root of the flag defaults, the directory \<^verbatim>\<open>.d\<close>
  with one file \<^verbatim>\<open>f\<close>.
\<close>

definition dotDir :: env where
  "dotDir = dirAt ''.d'' [regularFile ''f'' 512 1]"

text \<open>
  Two directories and two files as they are read, and one way to sort them by descending
  size.
\<close>

definition mixedRead :: "fileInfo list" where
  "mixedRead =
     [regularFile ''b'' 10 1, directory ''d'' 2, regularFile ''a'' 20 3, directory ''c'' 4]"

definition mixedBySizeDesc :: "fileInfo list" where
  "mixedBySizeDesc =
     [directory ''d'' 2, directory ''c'' 4, regularFile ''a'' 20 3, regularFile ''b'' 10 1]"

text \<open>The rows of \<^verbatim>\<open>/home/ftp/music\<close> in ascending order of name.\<close>

definition musicByName :: "row list" where
  "musicByName =
     [ParentRow,
      EntryRow ''/ftp/music/a.mp3'' ''a.mp3'' ''0.50&nbsp;KiB'' ''10'' [],
      EntryRow ''/ftp/music/b.mp3'' ''b.mp3'' ''2.00&nbsp;MiB'' ''30'' [],
      EntryRow ''/ftp/music/c.mp3'' ''c.mp3'' ''1.00&nbsp;KiB'' ''20'' []]"

text \<open>The same rows in descending order of modification time.\<close>

definition musicByDate :: "row list" where
  "musicByDate =
     [ParentRow,
      EntryRow ''/ftp/music/b.mp3'' ''b.mp3'' ''2.00&nbsp;MiB'' ''30'' [],
      EntryRow ''/ftp/music/c.mp3'' ''c.mp3'' ''1.00&nbsp;KiB'' ''20'' [],
      EntryRow ''/ftp/music/a.mp3'' ''a.mp3'' ''0.50&nbsp;KiB'' ''10'' []]"

section \<open>Facts about paths\<close>

lemma splitSlash_nonempty: "splitSlash s \<noteq> []"
  by (induction s) (auto split: list.splits)

lemma splitSlash_append: "splitSlash (a @ CHR ''/'' # b) = splitSlash a @ splitSlash b"
proof (induction a)
  case Nil
  show ?case by simp
next
  case (Cons c cs)
  obtain s ss where sp: "splitSlash cs = s # ss"
    using splitSlash_nonempty [of cs] by (cases "splitSlash cs") auto
  show ?case using Cons sp by simp
qed

lemma splitSlash_noslash: "CHR ''/'' \<notin> set s \<Longrightarrow> splitSlash s = [s]"
  by (induction s) auto

lemma splitSlash_elems: "s \<in> set (splitSlash p) \<Longrightarrow> CHR ''/'' \<notin> set s"
proof (induction p arbitrary: s)
  case Nil
  then show ?case by simp
next
  case (Cons c cs)
  obtain t ts where sp: "splitSlash cs = t # ts"
    using splitSlash_nonempty [of cs] by (cases "splitSlash cs") auto
  show ?case
  proof (cases "c = CHR ''/''")
    case True
    with Cons show ?thesis by auto
  next
    case False
    with Cons.prems sp have "s = c # t \<or> s \<in> set ts" by auto
    then show ?thesis
    proof
      assume "s = c # t"
      moreover have "CHR ''/'' \<notin> set t" using Cons.IH [of t] sp by simp
      ultimately show ?thesis using False by auto
    next
      assume "s \<in> set ts"
      then show ?thesis using Cons.IH [of s] sp by simp
    qed
  qed
qed

lemma splitSlash_joinSlash:
  "segs \<noteq> [] \<Longrightarrow> \<forall>s\<in>set segs. CHR ''/'' \<notin> set s \<Longrightarrow> splitSlash (joinSlash segs) = segs"
proof (induction segs rule: joinSlash.induct)
  case 1
  then show ?case by simp
next
  case (2 x)
  then show ?case by (simp add: splitSlash_noslash)
next
  case (3 x y ys)
  then show ?case by (simp add: splitSlash_append splitSlash_noslash)
qed

lemma joinSlash_append:
  "xs \<noteq> [] \<Longrightarrow> ys \<noteq> [] \<Longrightarrow> joinSlash (xs @ ys) = joinSlash xs @ CHR ''/'' # joinSlash ys"
proof (induction xs rule: joinSlash.induct)
  case 1
  then show ?case by simp
next
  case (2 x)
  then show ?case by (cases ys) auto
next
  case (3 x y zs)
  then show ?case by simp
qed

lemma joinSlash_Nil_iff: "list_all plainElem xs \<Longrightarrow> joinSlash xs = [] \<longleftrightarrow> xs = []"
  by (induction xs rule: joinSlash.induct) (auto simp: plainElem_def)

lemma plain_noslash: "list_all plainElem xs \<Longrightarrow> \<forall>s\<in>set xs. CHR ''/'' \<notin> set s"
  by (auto simp: list_all_iff plainElem_def)

lemma plain_filter: "list_all plainElem xs \<Longrightarrow> filter (\<lambda>s. s \<noteq> []) xs = xs"
  by (auto simp: list_all_iff plainElem_def intro: filter_True)

lemma splitSlash_plain:
  "list_all plainElem xs \<Longrightarrow> xs \<noteq> [] \<Longrightarrow> splitSlash (joinSlash xs) = xs"
  using splitSlash_joinSlash plain_noslash by blast

lemma joinSlash_inj:
  assumes "list_all plainElem xs" "list_all plainElem ys" "joinSlash xs = joinSlash ys"
  shows "xs = ys"
proof (cases "xs = []")
  case True
  then show ?thesis using assms joinSlash_Nil_iff [of ys] by simp
next
  case False
  then have "ys \<noteq> []" using assms joinSlash_Nil_iff [of xs] by auto
  then show ?thesis
    using False assms splitSlash_plain [of xs] splitSlash_plain [of ys] by metis
qed

lemma cleanElem_plain: "plainElem s \<Longrightarrow> cleanElem r out s = out @ [s]"
  by (simp add: cleanElem_def plainElem_def)

lemma cleanElem_empty: "cleanElem r out [] = out"
  by (simp add: cleanElem_def)

lemma foldl_cleanElem_plain:
  "\<forall>s\<in>set es. s = [] \<or> plainElem s \<Longrightarrow>
   foldl (cleanElem r) out es = out @ filter (\<lambda>s. s \<noteq> []) es"
  by (induction es arbitrary: out) (auto simp: cleanElem_plain cleanElem_empty)

lemma cleanElem_keeps_plain:
  "list_all plainElem out \<Longrightarrow> CHR ''/'' \<notin> set s \<Longrightarrow> list_all plainElem (cleanElem True out s)"
  by (auto simp: cleanElem_def plainElem_def list_all_iff dest: in_set_butlastD)

lemma foldl_cleanElem_keeps_plain:
  "list_all plainElem out \<Longrightarrow> \<forall>s\<in>set es. CHR ''/'' \<notin> set s \<Longrightarrow>
   list_all plainElem (foldl (cleanElem True) out es)"
  by (induction es arbitrary: out) (auto simp: cleanElem_keeps_plain)

lemma Clean_abs: "IsAbs p \<Longrightarrow> Clean p = absPath (cleanElems True (splitSlash p))"
  by (auto simp: Clean_def IsAbs_def absPath_def Let_def split: list.splits)

text \<open>A cleaned rooted path is a slash followed by plain elements joined by slashes.\<close>

lemma clean_abs_form:
  assumes "Clean p = p" "IsAbs p"
  obtains segs where "list_all plainElem segs" "p = absPath segs"
proof -
  have "list_all plainElem (cleanElems True (splitSlash p))"
    unfolding cleanElems_def
    by (rule foldl_cleanElem_keeps_plain) (auto dest: splitSlash_elems)
  moreover have "p = absPath (cleanElems True (splitSlash p))"
    using assms Clean_abs by simp
  ultimately show ?thesis using that by blast
qed

lemma Clean_absPath_rest:
  assumes "list_all plainElem as" "\<forall>s\<in>set (splitSlash x). s = [] \<or> plainElem s"
  shows "Clean (absPath as @ CHR ''/'' # x) = absPath (as @ filter (\<lambda>s. s \<noteq> []) (splitSlash x))"
proof -
  have abs: "IsAbs (absPath as @ CHR ''/'' # x)" by (simp add: IsAbs_def absPath_def)
  have sp: "splitSlash (absPath as @ CHR ''/'' # x) = [] # splitSlash (joinSlash as) @ splitSlash x"
    by (simp add: absPath_def splitSlash_append)
  have el: "\<forall>s\<in>set (splitSlash (joinSlash as)). s = [] \<or> plainElem s"
  proof (cases "as = []")
    case True
    then show ?thesis by simp
  next
    case False
    then show ?thesis using assms(1) splitSlash_plain [of as] by (simp add: list_all_iff)
  qed
  have fl: "filter (\<lambda>s. s \<noteq> []) (splitSlash (joinSlash as)) = as"
  proof (cases "as = []")
    case True
    then show ?thesis by simp
  next
    case False
    then show ?thesis using assms(1) splitSlash_plain [of as] plain_filter [of as] by simp
  qed
  have "cleanElems True (splitSlash (absPath as @ CHR ''/'' # x))
        = filter (\<lambda>s. s \<noteq> []) ([] # splitSlash (joinSlash as) @ splitSlash x)"
    unfolding cleanElems_def sp
    using foldl_cleanElem_plain [of "[] # splitSlash (joinSlash as) @ splitSlash x" True "[]"]
      el assms(2)
    by auto
  then show ?thesis using abs fl by (simp add: Clean_abs)
qed

lemma Join_absPath:
  assumes "list_all plainElem as" "\<forall>s\<in>set (splitSlash x). s = [] \<or> plainElem s"
  shows "Join [absPath as, x] = absPath (as @ filter (\<lambda>s. s \<noteq> []) (splitSlash x))"
proof -
  have "Join [absPath as, x] = Clean (absPath as @ CHR ''/'' # x)"
    by (simp add: Join_def absPath_def)
  then show ?thesis using Clean_absPath_rest [OF assms] by simp
qed

lemma removeIfStartsWith_append: "removeIfStartsWith (a @ b) a = b"
  by (simp add: removeIfStartsWith_def startsWith_def)

lemma startsWithD: "startsWith s a \<Longrightarrow> \<exists>b. s = a @ b"
  by (metis append_take_drop_id startsWith_def)

text \<open>What is left of a rooted path once a root made of its first elements is cut off.\<close>

lemma strip_segments:
  assumes "list_all plainElem rs" "list_all plainElem qs"
  shows "(\<forall>s\<in>set (splitSlash (removeIfStartsWith (absPath (rs @ qs)) (absPath rs))).
            s = [] \<or> plainElem s)
       \<and> filter (\<lambda>s. s \<noteq> [])
            (splitSlash (removeIfStartsWith (absPath (rs @ qs)) (absPath rs))) = qs"
proof (cases "qs = []")
  case True
  have "removeIfStartsWith (absPath rs) (absPath rs) = []"
    using removeIfStartsWith_append [of "absPath rs" "[]"] by simp
  then show ?thesis using True by simp
next
  case qne: False
  have sq: "splitSlash (joinSlash qs) = qs" using qne assms(2) splitSlash_plain by blast
  have fq: "filter (\<lambda>s. s \<noteq> []) qs = qs" using assms(2) plain_filter by blast
  have pq: "\<forall>s\<in>set qs. s = [] \<or> plainElem s" using assms(2) by (simp add: list_all_iff)
  show ?thesis
  proof (cases "rs = []")
    case True
    have "removeIfStartsWith (absPath qs) (absPath []) = joinSlash qs"
      using removeIfStartsWith_append [of "''/''" "joinSlash qs"] by (simp add: absPath_def)
    then show ?thesis using True sq fq pq by simp
  next
    case False
    have "absPath (rs @ qs) = absPath rs @ CHR ''/'' # joinSlash qs"
      using False qne by (simp add: absPath_def joinSlash_append)
    then have "removeIfStartsWith (absPath (rs @ qs)) (absPath rs) = CHR ''/'' # joinSlash qs"
      using removeIfStartsWith_append [of "absPath rs" "CHR ''/'' # joinSlash qs"] by simp
    then show ?thesis using sq fq pq by simp
  qed
qed

lemma translate_segments:
  assumes "list_all plainElem ts" "list_all plainElem rs" "list_all plainElem qs"
  shows "Join [absPath ts, removeIfStartsWith (absPath (rs @ qs)) (absPath rs)]
         = absPath (ts @ qs)"
  using Join_absPath [OF assms(1)] strip_segments [OF assms(2,3)] by simp

text \<open>A cleaned path under a root at an element boundary has the root's elements first.\<close>

lemma under_segments:
  assumes "list_all plainElem rs" "Clean p = p" "underRoot (absPath rs) p"
  obtains qs where "list_all plainElem qs" "p = absPath (rs @ qs)"
proof -
  have ab: "IsAbs p"
    using assms(3)
    by (auto simp: underRoot_def IsAbs_def absPath_def dest!: startsWithD split: if_splits)
  obtain ps where ps: "list_all plainElem ps" "p = absPath ps"
    using clean_abs_form [OF assms(2) ab] by blast
  have "\<exists>qs. ps = rs @ qs"
  proof (cases "p = absPath rs")
    case True
    then have "joinSlash ps = joinSlash rs" using ps by (simp add: absPath_def)
    then have "ps = rs" using joinSlash_inj ps(1) assms(1) by blast
    then show ?thesis by simp
  next
    case pne: False
    show ?thesis
    proof (cases "rs = []")
      case True
      then show ?thesis by simp
    next
      case False
      then have "absPath rs \<noteq> ''/''"
        using assms(1) joinSlash_Nil_iff [of rs] by (simp add: absPath_def)
      then have "startsWith p (absPath rs @ ''/'')"
        using assms(3) pne by (simp add: underRoot_def)
      then obtain rest where "p = absPath rs @ CHR ''/'' # rest"
        using startsWithD by fastforce
      then have eq: "joinSlash ps = joinSlash rs @ CHR ''/'' # rest"
        using ps by (simp add: absPath_def)
      then have "ps \<noteq> []" by auto
      then have "splitSlash (joinSlash ps) = ps"
        using ps(1) splitSlash_plain by blast
      moreover have "splitSlash (joinSlash rs) = rs"
        using False assms(1) splitSlash_plain by blast
      ultimately have "ps = rs @ splitSlash rest"
        using eq splitSlash_append [of "joinSlash rs" rest] by simp
      then show ?thesis by blast
    qed
  qed
  then obtain qs where q: "ps = rs @ qs" by blast
  then have "list_all plainElem qs" using ps(1) by simp
  then show ?thesis using that ps(2) q by blast
qed

lemma translate_round_trip:
  assumes "Clean a = a" "IsAbs a" "Clean b = b" "IsAbs b" "Clean p = p" "underRoot a p"
  shows "Join [a, removeIfStartsWith (Join [b, removeIfStartsWith p a]) b] = p"
proof -
  obtain as where as: "list_all plainElem as" "a = absPath as"
    using clean_abs_form [OF assms(1,2)] by blast
  obtain bs where bs: "list_all plainElem bs" "b = absPath bs"
    using clean_abs_form [OF assms(3,4)] by blast
  obtain qs where qs: "list_all plainElem qs" "p = absPath (as @ qs)"
    using under_segments [OF as(1) assms(5)] assms(6) as(2) by blast
  have "Join [b, removeIfStartsWith p a] = absPath (bs @ qs)"
    using translate_segments [OF bs(1) as(1) qs(1)] as(2) bs(2) qs(2) by simp
  then show ?thesis
    using translate_segments [OF as(1) bs(1) qs(1)] as(2) bs(2) qs(2) by simp
qed

section \<open>Facts about the comparators and sorted slices\<close>

text \<open>
  Each \<^verbatim>\<open>Less\<close> is a strict weak order: it is asymmetric, and "not less" is transitive.
  This is what \<^verbatim>\<open>sort.Sort\<close> needs to deliver a sorted slice.
\<close>

lemma entryLess_negtrans:
  "\<not> entryLess b d y x \<Longrightarrow> \<not> entryLess b d z y \<Longrightarrow> \<not> entryLess b d z x"
  by (cases b; cases d)
     (auto simp: ByName_Less_def ByDate_Less_def BySize_Less_def split: if_splits)


lemma entryLess_class:
  "\<not> entryLess b d y x \<Longrightarrow>
     (IsDir y \<longrightarrow> IsDir x) \<and> (IsDir x = IsDir y \<longrightarrow> \<not> keyLess b d y x)"
  by (cases b; cases d)
     (auto simp: ByName_Less_def ByDate_Less_def BySize_Less_def split: if_splits)

lemma IsSorted_sorted_wrt:
  assumes nt: "\<And>x y z. \<not> lt y x \<Longrightarrow> \<not> lt z y \<Longrightarrow> \<not> lt z x"
  shows "IsSorted lt ys \<Longrightarrow> sorted_wrt (\<lambda>a b. \<not> lt b a) ys"
proof (induction ys rule: induct_list012)
  case 1
  then show ?case by simp
next
  case (2 x)
  then show ?case by simp
next
  case (3 x y ys)
  then have s: "sorted_wrt (\<lambda>a b. \<not> lt b a) (y # ys)" and xy: "\<not> lt y x" by simp_all
  have "\<forall>z\<in>set (y # ys). \<not> lt z x"
  proof
    fix z assume "z \<in> set (y # ys)"
    then consider "z = y" | "z \<in> set ys" by auto
    then show "\<not> lt z x"
    proof cases
      case 1
      then show ?thesis using xy by simp
    next
      case 2
      then have "\<not> lt z y" using s by simp
      then show ?thesis using nt [OF xy] by blast
    qed
  qed
  then show ?case using s by simp
qed


lemma entries_sorted_wrt:
  "sortResult (entryLess b d) xs ys \<Longrightarrow> sorted_wrt (\<lambda>x y. \<not> entryLess b d y x) ys"
  unfolding sortResult_def
  using IsSorted_sorted_wrt [of "entryLess b d" ys] entryLess_negtrans by blast










section \<open>Facts about the rendered rows\<close>

lemma escapeChar_first: "c \<noteq> CHR ''.'' \<Longrightarrow> take 1 (escapeChar c) \<noteq> ''.''"
  by (simp add: escapeChar_def)

lemma EscapeString_first:
  "take 1 s \<noteq> ''.'' \<Longrightarrow> s \<noteq> [] \<Longrightarrow> take 1 (EscapeString s) \<noteq> ''.''"
proof (cases s)
  case Nil
  assume "s \<noteq> []"
  with Nil show ?thesis by simp
next
  case (Cons c cs)
  assume "take 1 s \<noteq> ''.''"
  with Cons have "c \<noteq> CHR ''.''" by simp
  then have "take 1 (escapeChar c) \<noteq> ''.''" by (rule escapeChar_first)
  moreover have "escapeChar c \<noteq> []" by (simp add: escapeChar_def)
  ultimately show ?thesis
    using Cons by (cases "escapeChar c") (simp_all add: EscapeString_def)
qed

lemma EscapeString_append: "EscapeString (a @ b) = EscapeString a @ EscapeString b"
  by (simp add: EscapeString_def)

lemma replaceSpaces_append: "replaceSpaces (a @ b) = replaceSpaces a @ replaceSpaces b"
  by (simp add: replaceSpaces_def)

lemma EscapeString_id: "\<forall>c\<in>set s. escapeChar c = [c] \<Longrightarrow> EscapeString s = s"
  by (induction s) (simp_all add: EscapeString_def)

lemma replaceSpaces_id: "CHR '' '' \<notin> set s \<Longrightarrow> replaceSpaces s = s"
  by (induction s) (auto simp: replaceSpaces_def)

lemma rowName_entryRow:
  "rowName (entryRow e cfg lp dfi) =
     EscapeString (if IsDir (followSymlink e lp dfi) then Name dfi @ ''/'' else Name dfi)"
  by (simp add: entryRow_def Let_def)

lemma entryRow_first:
  assumes "\<not> dotName dfi" "Name dfi \<noteq> []"
  shows "take 1 (rowName (entryRow e cfg lp dfi)) \<noteq> ''.''"
proof -
  have "take 1 (Name dfi @ ''/'') \<noteq> ''.''"
    using assms by (cases "Name dfi") (simp_all add: dotName_def)
  moreover have "take 1 (Name dfi) \<noteq> ''.''" using assms(1) by (simp add: dotName_def)
  ultimately show ?thesis
    using assms(2) EscapeString_first [of "Name dfi"] EscapeString_first [of "Name dfi @ ''/''"]
    by (simp add: rowName_entryRow)
qed

lemma entryRow_not_parent: "entryRow e cfg lp dfi \<noteq> ParentRow"
  by (simp add: entryRow_def Let_def)

text \<open>The row loop writes one row for every entry whose name does not begin with a dot.\<close>

lemma entryRows_Some:
  "entryRows e cfg lp fis = Some rs \<Longrightarrow>
     rs = map (entryRow e cfg lp) (filter (\<lambda>d. \<not> dotName d) fis)
     \<and> (\<forall>d\<in>set fis. Name d \<noteq> [])"
proof (induction fis arbitrary: rs)
  case Nil
  then show ?case by simp
next
  case (Cons dfi fis)
  then show ?case
    by (cases "Name dfi") (auto simp: dotName_def split: if_splits option.splits)
qed

text \<open>What a listing response says about the request that produced it.\<close>

lemma generateIndexHtml_Listing:
  assumes "generateIndexHtml e cfg upath q = Listing pg"
  obtains fis0 rs where
    "Readdir e (localPathOf cfg upath) = Inr fis0"
    "entryRows e cfg (localPathOf cfg upath)
       (Sort e (entryLess (modeBy (requestMode e cfg upath q))
                  (modeDir (requestMode e cfg upath q))) fis0)
     = Some rs"
    "pageNameSort pg = nameSort (requestMode e cfg upath q)"
    "pageSizeSort pg = sizeSort (requestMode e cfg upath q)"
    "pageDateSort pg = dateSort (requestMode e cfg upath q)"
    "pageRows pg =
       (if startsWith (baseDirOf (localPathOf cfg upath)) (jailRoot cfg) then [ParentRow] else [])
       @ rs"
  using assms
  unfolding generateIndexHtml_def requestMode_def localPathOf_def relPathOf_def Let_def
  by (auto split: if_splits option.splits sum.splits)

section \<open>Facts about the printed numbers\<close>

lemma digitChar_digit: "d < 10 \<Longrightarrow> digitChar d \<in> set ''0123456789''"
  unfolding digitChar_def by (rule nth_mem) simp

lemma showNat_digits: "set (showNat n) \<subseteq> set ''0123456789''"
proof (induction n rule: showNat.induct)
  case (1 n)
  show ?case
  proof (cases "n < 10")
    case True
    then show ?thesis using digitChar_digit [of n] by (subst showNat.simps) simp
  next
    case False
    have "n mod 10 < 10" by simp
    then have "digitChar (n mod 10) \<in> set ''0123456789''" by (rule digitChar_digit)
    then show ?thesis using False 1 by (subst showNat.simps) simp
  qed
qed

lemma digits_sub: "set ''0123456789'' \<subseteq> set ''0123456789.-''"
  by (simp add: subset_iff)

lemma Sprintf_02f_chars: "set (Sprintf_02f x k) \<subseteq> set ''0123456789.-''"
proof -
  have a: "set (showNat (hundredths x k div 100)) \<subseteq> set ''0123456789.-''"
    using showNat_digits [of "hundredths x k div 100"] digits_sub by (rule subset_trans)
  have "hundredths x k mod 100 div 10 < 10" by simp
  then have "digitChar (hundredths x k mod 100 div 10) \<in> set ''0123456789''"
    by (rule digitChar_digit)
  then have b: "digitChar (hundredths x k mod 100 div 10) \<in> set ''0123456789.-''"
    using digits_sub by (rule rev_subsetD)
  have "hundredths x k mod 10 < 10" by simp
  then have "digitChar (hundredths x k mod 10) \<in> set ''0123456789''"
    by (rule digitChar_digit)
  then have c: "digitChar (hundredths x k mod 10) \<in> set ''0123456789.-''"
    using digits_sub by (rule rev_subsetD)
  have d: "set ''-'' \<subseteq> set ''0123456789.-''" "set ''.'' \<subseteq> set ''0123456789.-''"
    by simp_all
  have "set (Sprintf_02f x k) =
          set (if x < 0 then ''-'' else []) \<union> set (showNat (hundredths x k div 100))
          \<union> set ''.''
          \<union> {digitChar (hundredths x k mod 100 div 10), digitChar (hundredths x k mod 10)}"
    by (auto simp: Sprintf_02f_def Let_def)
  moreover have "set (if x < 0 then ''-'' else []) \<subseteq> set ''0123456789.-''"
    using d(1) by (cases "x < 0") simp_all
  ultimately show ?thesis using a b c d(2) by blast
qed

lemma Sprintf_02f_cell:
  "replaceSpaces (EscapeString (Sprintf_02f x k)) = Sprintf_02f x k"
proof -
  have "\<forall>c\<in>set ''0123456789.-''. escapeChar c = [c] \<and> c \<noteq> CHR '' ''"
    by (simp add: escapeChar_def)
  then have "\<forall>c\<in>set (Sprintf_02f x k). escapeChar c = [c] \<and> c \<noteq> CHR '' ''"
    using Sprintf_02f_chars [of x k] by blast
  then show ?thesis
    using EscapeString_id [of "Sprintf_02f x k"] replaceSpaces_id [of "Sprintf_02f x k"]
    by auto
qed

lemma sizeCell_text:
  "replaceSpaces (EscapeString (sizeTextOf n)) =
     (if n < 1024 * 1024 then Sprintf_02f (float64 n) 10 @ ''&nbsp;KiB''
      else if n < 1024 * 1024 * 1024 then Sprintf_02f (float64 n) 20 @ ''&nbsp;MiB''
      else Sprintf_02f (float64 n) 30 @ ''&nbsp;GiB'')"
proof -
  have u: "replaceSpaces (EscapeString '' KiB'') = ''&nbsp;KiB''"
     "replaceSpaces (EscapeString '' MiB'') = ''&nbsp;MiB''"
     "replaceSpaces (EscapeString '' GiB'') = ''&nbsp;GiB''"
    by (simp_all add: replaceSpaces_def EscapeString_def escapeChar_def)
  have v: "replaceSpaces (EscapeString (Sprintf_02f x k @ unit))
           = Sprintf_02f x k @ replaceSpaces (EscapeString unit)" for x k unit
    by (simp only: EscapeString_append replaceSpaces_append Sprintf_02f_cell)
  consider "n < 1024 * 1024" | "\<not> n < 1024 * 1024" "n < 1024 * 1024 * 1024"
    | "\<not> n < 1024 * 1024" "\<not> n < 1024 * 1024 * 1024"
    by blast
  then show ?thesis
  proof cases
    case 1
    then show ?thesis unfolding sizeTextOf_def by (simp only: v u if_True)
  next
    case 2
    then show ?thesis unfolding sizeTextOf_def by (simp only: v u if_True if_False)
  next
    case 3
    then show ?thesis unfolding sizeTextOf_def by (simp only: v u if_False)
  qed
qed

lemma roundHalfEven_near:
  assumes "0 < den"
  shows "2 * \<bar>roundHalfEven num den * den - num\<bar> \<le> den"
proof -
  define q where "q = num div den"
  define r where "r = num mod den"
  have n: "num = q * den + r" by (simp add: q_def r_def)
  have r: "0 \<le> r" "r < den" using assms by (simp_all add: r_def)
  have up: "(q + 1) * den - num = den - r" using n by (simp add: algebra_simps)
  have dn: "q * den - num = - r" using n by simp
  show ?thesis
  proof (cases "2 * r > den \<or> (2 * r = den \<and> odd q)")
    case True
    then have "roundHalfEven num den = q + 1"
      by (simp add: roundHalfEven_def Let_def q_def r_def)
    then show ?thesis using up r True by auto
  next
    case False
    then have "roundHalfEven num den = q"
      by (auto simp: roundHalfEven_def Let_def q_def r_def)
    then show ?thesis using dn r False by auto
  qed
qed

lemma roundHalfEven_nonneg: "0 \<le> num \<Longrightarrow> 0 < den \<Longrightarrow> 0 \<le> roundHalfEven num den"
  by (auto simp: roundHalfEven_def Let_def pos_imp_zdiv_nonneg_iff)

lemma hundredths_near:
  assumes "0 \<le> n"
  shows "2 * \<bar>int (hundredths n k) * 2 ^ k - 100 * n\<bar> \<le> 2 ^ k"
proof -
  have "0 \<le> roundHalfEven (n * 100) (2 ^ k)"
    using assms by (intro roundHalfEven_nonneg) simp_all
  then have "int (hundredths n k) = roundHalfEven (n * 100) (2 ^ k)"
    using assms by (simp add: hundredths_def)
  then show ?thesis
    using roundHalfEven_near [of "2 ^ k" "n * 100"] by (simp add: mult.commute)
qed

lemma float64_exact: "\<bar>n\<bar> < 2 ^ 53 \<Longrightarrow> float64 n = n"
  by (simp add: float64_def Let_def)

section \<open>Symlink requests and the jail\<close>

text \<open>
  Claim C1. For every request whose local path is a symlink whose target, absolute or
  joined onto the directory of the symlink, normalizes to a path outside the jail root,
  the dispatcher is to answer with a client error and never with a redirect.

  The code tests only an absolute target, before it is joined. With the jail
  \<^verbatim>\<open>/home/ftp\<close> served as \<^verbatim>\<open>/ftp\<close>, the symlink \<^verbatim>\<open>/home/ftp/link\<close> with the relative
  target \<^verbatim>\<open>../../etc/passwd\<close> resolves to \<^verbatim>\<open>/etc/passwd\<close>, outside the jail, and the
  request for it is answered with a redirect (status 302), not with an error.
\<close>

theorem relative_symlink_escape_redirected:
  "localPathOf cfgFtp ''/ftp/link'' = ''/home/ftp/link''
   \<and> Join [Dir (localPathOf cfgFtp ''/ftp/link''), ''../../etc/passwd''] = ''/etc/passwd''
   \<and> \<not> startsWith ''/etc/passwd'' (jailRoot cfgFtp)
   \<and> processRequest (linkAt ''../../etc/passwd'') cfgFtp ''/ftp/link'' []
       = Redirect ''/ftp/etc/passwd'' 302"
  by code_simp

text \<open>
  Claim C2. The containment test is to hold exactly for the jail root and its descendants,
  matching whole path elements, so that \<^verbatim>\<open>/home/ftpx\<close> is not inside the jail
  \<^verbatim>\<open>/home/ftp\<close>.

  The test of the code is \<^verbatim>\<open>startsWith\<close>, a comparison of the leading bytes of the target
  as it was read. It holds for \<^verbatim>\<open>/home/ftpx\<close> against \<^verbatim>\<open>/home/ftp\<close>, and a symlink to
  \<^verbatim>\<open>/home/ftpx/secret\<close> is redirected instead of refused, while a symlink to
  \<^verbatim>\<open>/etc/passwd\<close> is refused.
\<close>

theorem sibling_of_jail_judged_inside:
  "Clean ''/home/ftpx'' = ''/home/ftpx''
   \<and> \<not> underRoot ''/home/ftp'' ''/home/ftpx''
   \<and> startsWith ''/home/ftpx'' ''/home/ftp''
   \<and> startsWith ''/home/ftpx/secret'' (jailRoot cfgFtp)
   \<and> processRequest (linkAt ''/home/ftpx/secret'') cfgFtp ''/ftp/link'' []
       = Redirect ''/ftp/home/ftpx/secret'' 302
   \<and> processRequest (linkAt ''/etc/passwd'') cfgFtp ''/ftp/link'' []
       = Error ''Symlink points outside of jail'' 400"
  by code_simp

section \<open>Round trip of the two translations\<close>

text \<open>
  Claim C3. For every normalized path that starts with the proxy root, translating it to
  a local path and back to a proxy path is to yield the path again, and symmetrically for
  the paths under the jail root.

  Both translations cut the root off as a run of leading bytes, wherever that run ends.
  Under the flag defaults the jail root is \<^verbatim>\<open>.\<close>: the proxy path \<^verbatim>\<open>/.d/f\<close> has the local
  path \<^verbatim>\<open>.d/f\<close>, which loses the dot of its first element on the way back and returns as
  \<^verbatim>\<open>/d/f\<close>; the listing of \<^verbatim>\<open>/.d\<close> is titled \<^verbatim>\<open>/.d\<close> and links its file as \<^verbatim>\<open>/d/f\<close>.
  With the proxy root \<^verbatim>\<open>/ftp\<close> the path \<^verbatim>\<open>/ftpx\<close> returns as \<^verbatim>\<open>/ftp/x\<close>.
\<close>

theorem round_trip_lost_by_prefix_strip:
  "Clean ''/.d/f'' = ''/.d/f''
   \<and> startsWith ''/.d/f'' (proxyRoot cfgDefault)
   \<and> localPathOf cfgDefault ''/.d/f'' = ''.d/f''
   \<and> translateForProxy cfgDefault (localPathOf cfgDefault ''/.d/f'') = ''/d/f''
   \<and> translateForProxy cfgDefault (localPathOf cfgDefault ''/.d/f'') \<noteq> ''/.d/f''
   \<and> processRequest dotDir cfgDefault ''/.d'' []
       = Listing \<lparr>pageTitle = ''/.d'', pageNameSort = ''name-asc'',
                  pageSizeSort = ''size-asc'', pageDateSort = ''date-asc'',
                  pageRows = [ParentRow, EntryRow ''/d/f'' ''f'' ''0.50&nbsp;KiB'' ''1'' []]\<rparr>
   \<and> Clean ''/ftpx'' = ''/ftpx''
   \<and> startsWith ''/ftpx'' (proxyRoot cfgFtp)
   \<and> translateForProxy cfgFtp (localPathOf cfgFtp ''/ftpx'') = ''/ftp/x''
   \<and> translateForProxy cfgFtp (localPathOf cfgFtp ''/ftpx'') \<noteq> ''/ftpx''"
  by code_simp

text \<open>
  Where the roots are normalized absolute paths and the path is the root or continues it
  after a slash, the cut falls on an element boundary and the round trip holds, in both
  directions.
\<close>

lemma round_trip_absolute_roots:
  "Clean (proxyRoot cfg) = proxyRoot cfg \<Longrightarrow> IsAbs (proxyRoot cfg) \<Longrightarrow>
   Clean (jailRoot cfg) = jailRoot cfg \<Longrightarrow> IsAbs (jailRoot cfg) \<Longrightarrow>
   Clean p = p \<Longrightarrow>
   (underRoot (proxyRoot cfg) p \<longrightarrow> translateForProxy cfg (localPathOf cfg p) = p)
   \<and> (underRoot (jailRoot cfg) p \<longrightarrow> localPathOf cfg (translateForProxy cfg p) = p)"
  using translate_round_trip [of "proxyRoot cfg" "jailRoot cfg" p]
        translate_round_trip [of "jailRoot cfg" "proxyRoot cfg" p]
  by (simp add: translateForProxy_def localPathOf_def relPathOf_def)

lemma round_trip_absolute_roots_example:
  "Clean (proxyRoot cfgFtp) = proxyRoot cfgFtp \<and> IsAbs (proxyRoot cfgFtp)
   \<and> Clean (jailRoot cfgFtp) = jailRoot cfgFtp \<and> IsAbs (jailRoot cfgFtp)
   \<and> Clean ''/ftp/music/a.mp3'' = ''/ftp/music/a.mp3''
   \<and> underRoot (proxyRoot cfgFtp) ''/ftp/music/a.mp3''
   \<and> translateForProxy cfgFtp (localPathOf cfgFtp ''/ftp/music/a.mp3'') = ''/ftp/music/a.mp3''
   \<and> Clean ''/home/ftp'' = ''/home/ftp''
   \<and> underRoot (jailRoot cfgFtp) ''/home/ftp''
   \<and> localPathOf cfgFtp (translateForProxy cfgFtp ''/home/ftp'') = ''/home/ftp''"
proof -
  have roots: "Clean (proxyRoot cfgFtp) = proxyRoot cfgFtp \<and> IsAbs (proxyRoot cfgFtp)
     \<and> Clean (jailRoot cfgFtp) = jailRoot cfgFtp \<and> IsAbs (jailRoot cfgFtp)"
    by code_simp
  have p1: "Clean ''/ftp/music/a.mp3'' = ''/ftp/music/a.mp3''
     \<and> underRoot (proxyRoot cfgFtp) ''/ftp/music/a.mp3''"
    by code_simp
  have p2: "Clean ''/home/ftp'' = ''/home/ftp'' \<and> underRoot (jailRoot cfgFtp) ''/home/ftp''"
    by code_simp
  have c1: "translateForProxy cfgFtp (localPathOf cfgFtp ''/ftp/music/a.mp3'')
            = ''/ftp/music/a.mp3''"
    using round_trip_absolute_roots [of cfgFtp "''/ftp/music/a.mp3''"] roots p1 by blast
  have c2: "localPathOf cfgFtp (translateForProxy cfgFtp ''/home/ftp'') = ''/home/ftp''"
    using round_trip_absolute_roots [of cfgFtp "''/home/ftp''"] roots p2 by blast
  show ?thesis using roots p1 p2 c1 c2 by blast
qed

section \<open>The order of a sorted listing\<close>

text \<open>
  Claim C4. In every directory listing, under every sort key and direction, every entry
  classed as a directory is to appear before every entry not classed as one, and within
  a class the entries are to stand in the order of the chosen key and direction.

  The comparators put directories first by \<^verbatim>\<open>IsDir()\<close> of the entries as the directory
  read returned them, and the slice is sorted before the row loop follows the symlinks.
  A symlink to a directory is classed as a directory in its row and as a file in the
  sort. In \<^verbatim>\<open>/home/ftp\<close> with the file \<^verbatim>\<open>a.txt\<close>, the directory \<^verbatim>\<open>music\<close> and the symlink
  \<^verbatim>\<open>z\<close> to it, the only sorted order by name is music, a.txt, z, and the listing shows
  the directory row \<^verbatim>\<open>z/\<close> after the file row \<^verbatim>\<open>a.txt\<close>.
\<close>

theorem directory_row_after_file_row:
  "Readdir homeDir ''/home/ftp''
     = Inr [symlink ''z'' 7, regularFile ''a.txt'' 512 3, directory ''music'' 9]
   \<and> IsDir (followSymlink homeDir ''/home/ftp'' (symlink ''z'' 7))
   \<and> \<not> IsDir (followSymlink homeDir ''/home/ftp'' (regularFile ''a.txt'' 512 3))
   \<and> Sort homeDir (entryLess sortByName sortAscending)
        [symlink ''z'' 7, regularFile ''a.txt'' 512 3, directory ''music'' 9]
       = [directory ''music'' 9, regularFile ''a.txt'' 512 3, symlink ''z'' 7]
   \<and> entryLess sortByName sortAscending (directory ''music'' 9) (regularFile ''a.txt'' 512 3)
   \<and> entryLess sortByName sortAscending (regularFile ''a.txt'' 512 3) (symlink ''z'' 7)
   \<and> processRequest homeDir cfgFtp ''/ftp'' []
       = Listing \<lparr>pageTitle = ''/ftp'', pageNameSort = ''name-asc'',
                  pageSizeSort = ''size-asc'', pageDateSort = ''date-asc'',
                  pageRows =
                    [EntryRow ''/ftp/music/'' ''music/'' ''-'' ''9'' [],
                     EntryRow ''/ftp/a.txt'' ''a.txt'' ''0.50&nbsp;KiB'' ''3'' [],
                     EntryRow ''/ftp/z/'' ''z/'' ''-'' ''9'' []]\<rparr>"
  by code_simp

text \<open>
  What the sort does deliver: in every slice that \<^verbatim>\<open>sort.Sort\<close> returns, for every key
  and direction, no entry that is itself a directory stands after one that is not, and two
  entries of the same class stand in the order of the key.
\<close>

lemma sorted_slice_directories_first:
  assumes "sortResult (entryLess b d) xs ys" and "i < j" and "j < length ys"
  shows "(IsDir (ys ! j) \<longrightarrow> IsDir (ys ! i))
       \<and> (IsDir (ys ! i) = IsDir (ys ! j) \<longrightarrow> \<not> keyLess b d (ys ! j) (ys ! i))"
proof -
  have "sorted_wrt (\<lambda>x y. \<not> entryLess b d y x) ys"
    using assms(1) by (rule entries_sorted_wrt)
  then have "\<not> entryLess b d (ys ! j) (ys ! i)"
    using assms(2,3) by (simp add: sorted_wrt_iff_nth_less)
  then show ?thesis by (rule entryLess_class)
qed

lemma sorted_slice_directories_first_example:
  "sortResult (entryLess sortBySize sortDescending) mixedRead mixedBySizeDesc
   \<and> (2::nat) < 3 \<and> 3 < length mixedBySizeDesc
   \<and> IsDir (mixedBySizeDesc ! 2) = IsDir (mixedBySizeDesc ! 3)
   \<and> \<not> keyLess sortBySize sortDescending (mixedBySizeDesc ! 3) (mixedBySizeDesc ! 2)"
proof -
  have h: "sortResult (entryLess sortBySize sortDescending) mixedRead mixedBySizeDesc
     \<and> (2::nat) < 3 \<and> 3 < length mixedBySizeDesc
     \<and> IsDir (mixedBySizeDesc ! 2) = IsDir (mixedBySizeDesc ! 3)"
    by code_simp
  then show ?thesis
    using sorted_slice_directories_first
      [of sortBySize sortDescending mixedRead mixedBySizeDesc 2 3]
    by blast
qed

text \<open>
  So a listing of a directory that holds no symlink has its directory rows first: the rows
  are those of a list of entries that the row loop classes as it finds them, directories
  before the others and each class in the order of the key.
\<close>

lemma listing_without_symlinks_directories_first:
  assumes l: "generateIndexHtml e cfg upath q = Listing pg"
    and rd: "Readdir e (localPathOf cfg upath) = Inr fis0"
    and sr: "sortResult (entryLess (modeBy (requestMode e cfg upath q))
                           (modeDir (requestMode e cfg upath q))) fis0
               (Sort e (entryLess (modeBy (requestMode e cfg upath q))
                          (modeDir (requestMode e cfg upath q))) fis0)"
    and nl: "\<forall>x\<in>set fis0. Mode x AND ModeSymlink = 0"
  shows "\<exists>zs. filter (\<lambda>r. r \<noteq> ParentRow) (pageRows pg)
                = map (entryRow e cfg (localPathOf cfg upath)) zs
          \<and> (\<forall>x\<in>set zs. followSymlink e (localPathOf cfg upath) x = x)
          \<and> (\<forall>i j. i < j \<and> j < length zs \<longrightarrow>
                (IsDir (zs ! j) \<longrightarrow> IsDir (zs ! i))
                \<and> (IsDir (zs ! i) = IsDir (zs ! j) \<longrightarrow>
                     \<not> keyLess (modeBy (requestMode e cfg upath q))
                          (modeDir (requestMode e cfg upath q)) (zs ! j) (zs ! i)))"
proof -
  define b where "b = modeBy (requestMode e cfg upath q)"
  define d where "d = modeDir (requestMode e cfg upath q)"
  define ys where "ys = Sort e (entryLess b d) fis0"
  define zs where "zs = filter (\<lambda>x. \<not> dotName x) ys"
  obtain fis1 rs where r:
    "Readdir e (localPathOf cfg upath) = Inr fis1"
    "entryRows e cfg (localPathOf cfg upath) (Sort e (entryLess b d) fis1) = Some rs"
    "pageRows pg =
       (if startsWith (baseDirOf (localPathOf cfg upath)) (jailRoot cfg) then [ParentRow]
        else []) @ rs"
    using generateIndexHtml_Listing [OF l] unfolding b_def d_def by metis
  have same: "fis1 = fis0" using r(1) rd by simp
  have rs: "rs = map (entryRow e cfg (localPathOf cfg upath)) zs"
    using entryRows_Some [OF r(2)] same by (simp add: zs_def ys_def)
  have "\<forall>x\<in>set rs. x \<noteq> ParentRow" using rs entryRow_not_parent by auto
  then have "filter (\<lambda>r. r \<noteq> ParentRow) rs = rs" by (simp add: filter_id_conv)
  then have rows: "filter (\<lambda>r. r \<noteq> ParentRow) (pageRows pg)
                   = map (entryRow e cfg (localPathOf cfg upath)) zs"
    using r(3) rs by simp
  have srt: "sortResult (entryLess b d) fis0 ys" using sr by (simp add: b_def d_def ys_def)
  then have "set ys = set fis0" by (metis sortResult_def set_mset_mset)
  then have "\<forall>x\<in>set zs. Mode x AND ModeSymlink = 0" using nl by (simp add: zs_def)
  then have plain: "\<forall>x\<in>set zs. followSymlink e (localPathOf cfg upath) x = x"
    by (simp add: followSymlink_def)
  have "sorted_wrt (\<lambda>x y. \<not> entryLess b d y x) ys" using srt by (rule entries_sorted_wrt)
  then have sz: "sorted_wrt (\<lambda>x y. \<not> entryLess b d y x) zs"
    unfolding zs_def by (rule sorted_wrt_filter)
  have ord: "(IsDir (zs ! j) \<longrightarrow> IsDir (zs ! i))
       \<and> (IsDir (zs ! i) = IsDir (zs ! j) \<longrightarrow> \<not> keyLess b d (zs ! j) (zs ! i))"
    if "i < j \<and> j < length zs" for i j
  proof -
    have "\<not> entryLess b d (zs ! j) (zs ! i)"
      using sz that by (simp add: sorted_wrt_iff_nth_less)
    then show ?thesis by (rule entryLess_class)
  qed
  show ?thesis using rows plain ord unfolding b_def d_def by blast
qed




section \<open>Which sort mode a listing uses\<close>

text \<open>
  Claim C6. A non-empty \<^verbatim>\<open>sort\<close> value of the query decides the sort mode whatever the
  marker file says; with an empty query value the first line of the marker file decides;
  with neither, the mode is the default, by name and ascending. The directory
  \<^verbatim>\<open>/home/ftp/music\<close>, whose marker file says \<^verbatim>\<open>date-desc\<close>, is listed in ascending
  order of name when the request carries \<^verbatim>\<open>?sort=name-asc\<close>, and in descending order of
  date when it carries no query.
\<close>

theorem sort_mode_precedence:
  "(q \<noteq> [] \<longrightarrow> sortSwitch (sortStringOf marker q) = sortSwitch q)
   \<and> sortSwitch (sortStringOf (Some line) []) = sortSwitch line
   \<and> sortSwitch (sortStringOf None []) = defaultMode
   \<and> modeBy defaultMode = sortByName \<and> modeDir defaultMode = sortAscending
   \<and> (generateIndexHtml e cfg upath q = Listing pg \<longrightarrow>
        (\<exists>fis0 rs. Readdir e (localPathOf cfg upath) = Inr fis0
           \<and> entryRows e cfg (localPathOf cfg upath)
                (Sort e (entryLess (modeBy (requestMode e cfg upath q))
                           (modeDir (requestMode e cfg upath q))) fis0) = Some rs
           \<and> filter (\<lambda>r. r \<noteq> ParentRow) (pageRows pg) = rs)
        \<and> (q \<noteq> [] \<longrightarrow> requestMode e cfg upath q = sortSwitch q))
   \<and> FirstLine musicDir (Join [localPathOf cfgFtp ''/ftp/music'', ''.index-sort''])
       = Some ''date-desc''
   \<and> processRequest musicDir cfgFtp ''/ftp/music'' ''name-asc''
       = Listing \<lparr>pageTitle = ''/ftp/music'', pageNameSort = ''name-desc'',
                  pageSizeSort = ''size-asc'', pageDateSort = ''date-asc'',
                  pageRows = musicByName\<rparr>
   \<and> processRequest musicDir cfgFtp ''/ftp/music'' []
       = Listing \<lparr>pageTitle = ''/ftp/music'', pageNameSort = ''name-asc'',
                  pageSizeSort = ''size-asc'', pageDateSort = ''date-asc'',
                  pageRows = musicByDate\<rparr>"
proof -
  have a: "q \<noteq> [] \<longrightarrow> sortSwitch (sortStringOf marker q) = sortSwitch q"
    by (simp add: sortStringOf_def)
  have b: "sortSwitch (sortStringOf (Some line) []) = sortSwitch line"
    by (simp add: sortStringOf_def)
  have c: "sortSwitch (sortStringOf None []) = defaultMode"
    by (simp add: sortStringOf_def sortSwitch_def)
  have d: "modeBy defaultMode = sortByName \<and> modeDir defaultMode = sortAscending"
    by (simp add: defaultMode_def)
  have g: "generateIndexHtml e cfg upath q = Listing pg \<longrightarrow>
        (\<exists>fis0 rs. Readdir e (localPathOf cfg upath) = Inr fis0
           \<and> entryRows e cfg (localPathOf cfg upath)
                (Sort e (entryLess (modeBy (requestMode e cfg upath q))
                           (modeDir (requestMode e cfg upath q))) fis0) = Some rs
           \<and> filter (\<lambda>r. r \<noteq> ParentRow) (pageRows pg) = rs)
        \<and> (q \<noteq> [] \<longrightarrow> requestMode e cfg upath q = sortSwitch q)"
  proof
    assume l: "generateIndexHtml e cfg upath q = Listing pg"
    then obtain fis0 rs where r:
      "Readdir e (localPathOf cfg upath) = Inr fis0"
      "entryRows e cfg (localPathOf cfg upath)
         (Sort e (entryLess (modeBy (requestMode e cfg upath q))
                    (modeDir (requestMode e cfg upath q))) fis0) = Some rs"
      "pageRows pg =
         (if startsWith (baseDirOf (localPathOf cfg upath)) (jailRoot cfg) then [ParentRow]
          else []) @ rs"
      by (rule generateIndexHtml_Listing)
    have "\<forall>x\<in>set rs. x \<noteq> ParentRow"
      using entryRows_Some [OF r(2)] entryRow_not_parent by auto
    then have "filter (\<lambda>r. r \<noteq> ParentRow) rs = rs" by (simp add: filter_id_conv)
    then have "filter (\<lambda>r. r \<noteq> ParentRow) (pageRows pg) = rs" using r(3) by simp
    moreover have "q \<noteq> [] \<longrightarrow> requestMode e cfg upath q = sortSwitch q"
      by (simp add: requestMode_def sortStringOf_def)
    ultimately show "(\<exists>fis0 rs. Readdir e (localPathOf cfg upath) = Inr fis0
           \<and> entryRows e cfg (localPathOf cfg upath)
                (Sort e (entryLess (modeBy (requestMode e cfg upath q))
                           (modeDir (requestMode e cfg upath q))) fis0) = Some rs
           \<and> filter (\<lambda>r. r \<noteq> ParentRow) (pageRows pg) = rs)
        \<and> (q \<noteq> [] \<longrightarrow> requestMode e cfg upath q = sortSwitch q)"
      using r(1,2) by blast
  qed
  have s1: "FirstLine musicDir (Join [localPathOf cfgFtp ''/ftp/music'', ''.index-sort''])
       = Some ''date-desc''"
    by code_simp
  have s2: "processRequest musicDir cfgFtp ''/ftp/music'' ''name-asc''
       = Listing \<lparr>pageTitle = ''/ftp/music'', pageNameSort = ''name-desc'',
                  pageSizeSort = ''size-asc'', pageDateSort = ''date-asc'',
                  pageRows = musicByName\<rparr>"
    by code_simp
  have s3: "processRequest musicDir cfgFtp ''/ftp/music'' []
       = Listing \<lparr>pageTitle = ''/ftp/music'', pageNameSort = ''name-asc'',
                  pageSizeSort = ''size-asc'', pageDateSort = ''date-asc'',
                  pageRows = musicByDate\<rparr>"
    by code_simp
  show ?thesis using a b c d g s1 s2 s3 by (intro conjI) blast+
qed

theorem sort_mode_precedence_witness:
  "''name-asc'' \<noteq> []
   \<and> sortSwitch (sortStringOf (Some ''date-desc'') ''name-asc'') = sortSwitch ''name-asc''
   \<and> generateIndexHtml musicDir cfgFtp ''/ftp/music'' ''name-asc''
       = Listing \<lparr>pageTitle = ''/ftp/music'', pageNameSort = ''name-desc'',
                  pageSizeSort = ''size-asc'', pageDateSort = ''date-asc'',
                  pageRows = musicByName\<rparr>
   \<and> requestMode musicDir cfgFtp ''/ftp/music'' ''name-asc'' = sortSwitch ''name-asc''"
proof -
  have h: "''name-asc'' \<noteq> []
     \<and> generateIndexHtml musicDir cfgFtp ''/ftp/music'' ''name-asc''
       = Listing \<lparr>pageTitle = ''/ftp/music'', pageNameSort = ''name-desc'',
                  pageSizeSort = ''size-asc'', pageDateSort = ''date-asc'',
                  pageRows = musicByName\<rparr>"
    by code_simp
  then show ?thesis
    using sort_mode_precedence
      [of "''name-asc''" "Some ''date-desc''" "''x''" musicDir cfgFtp "''/ftp/music''"
          "\<lparr>pageTitle = ''/ftp/music'', pageNameSort = ''name-desc'',
            pageSizeSort = ''size-asc'', pageDateSort = ''date-asc'',
            pageRows = musicByName\<rparr>"]
    by blast
qed

section \<open>The parent-directory row\<close>

text \<open>
  Claim C7. A listing is to carry the \<^verbatim>\<open>../\<close> row exactly when the listed directory is a
  strict subdirectory of the jail root, and none when it is the jail root itself.

  The code writes the row when \<^verbatim>\<open>startsWith(baseDir, jailRoot)\<close>, where \<^verbatim>\<open>baseDir\<close> is
  the directory of the local path. With the jail root \<^verbatim>\<open>.\<close> of the flag defaults the
  request for \<^verbatim>\<open>/\<close> lists the jail root itself; its \<^verbatim>\<open>baseDir\<close> is \<^verbatim>\<open>.\<close> again, and the
  listing carries the \<^verbatim>\<open>../\<close> row.
\<close>

theorem parent_row_at_default_jail_root:
  "localPathOf cfgDefault ''/'' = jailRoot cfgDefault
   \<and> baseDirOf (localPathOf cfgDefault ''/'') = ''.''
   \<and> processRequest workDir cfgDefault ''/'' []
       = Listing \<lparr>pageTitle = ''/'', pageNameSort = ''name-asc'',
                  pageSizeSort = ''size-asc'', pageDateSort = ''date-asc'',
                  pageRows =
                    [ParentRow,
                     EntryRow ''/readme'' ''readme'' ''0.50&nbsp;KiB'' ''1'' []]\<rparr>"
  by code_simp

text \<open>
  With a normalized absolute jail root the row is written as the claim says: for a listed
  directory that is the jail root or lies below it, the listing carries the \<^verbatim>\<open>../\<close> row
  exactly when the directory is not the jail root itself.
\<close>

lemma Clean_absPath: "list_all plainElem as \<Longrightarrow> Clean (absPath as) = absPath as"
proof -
  assume a: "list_all plainElem as"
  have abs: "IsAbs (absPath as)" by (simp add: IsAbs_def absPath_def)
  have "cleanElems True (splitSlash (absPath as)) = as"
  proof (cases "as = []")
    case True
    then show ?thesis by (simp add: cleanElems_def cleanElem_def absPath_def)
  next
    case False
    then have "splitSlash (absPath as) = [] # as"
      using a splitSlash_plain [of as] by (simp add: absPath_def)
    moreover have "\<forall>s\<in>set ([] # as). s = [] \<or> plainElem s"
      using a by (simp add: list_all_iff)
    ultimately show ?thesis
      unfolding cleanElems_def
      using foldl_cleanElem_plain [of "[] # as" True "[]"] plain_filter [OF a] by simp
  qed
  then show ?thesis using abs by (simp add: Clean_abs)
qed

lemma dirPart_last:
  "CHR ''/'' \<notin> set l \<Longrightarrow> dirPart (pre @ CHR ''/'' # l) = pre @ ''/''"
proof -
  assume "CHR ''/'' \<notin> set l"
  then have "dropWhile (\<lambda>c. c \<noteq> CHR ''/'') (rev l @ CHR ''/'' # rev pre) = CHR ''/'' # rev pre"
    by (subst dropWhile_append2) auto
  then show ?thesis by (simp add: dirPart_def)
qed

lemma Dir_absPath:
  assumes "list_all plainElem ps" "ps \<noteq> []"
  shows "Dir (absPath ps) = absPath (butlast ps)"
proof -
  obtain qs x where px: "ps = qs @ [x]" using assms(2) by (metis rev_exhaust)
  have x: "CHR ''/'' \<notin> set x" and q: "list_all plainElem qs"
    using assms(1) px by (simp_all add: plainElem_def)
  show ?thesis
  proof (cases "qs = []")
    case True
    then have "dirPart (absPath ps) = ''/''"
      using dirPart_last [OF x, of "[]"] px by (simp add: absPath_def)
    moreover have "Clean ''/'' = absPath []" by code_simp
    ultimately show ?thesis using True px by (simp add: Dir_def)
  next
    case False
    then have "absPath ps = absPath qs @ CHR ''/'' # x"
      using px by (simp add: absPath_def joinSlash_append)
    then have "dirPart (absPath ps) = absPath qs @ CHR ''/'' # []"
      using dirPart_last [OF x, of "absPath qs"] by simp
    moreover have "Clean (absPath qs @ CHR ''/'' # []) = absPath qs"
      using Clean_absPath_rest [OF q, of "[]"] by simp
    ultimately show ?thesis using px by (simp add: Dir_def)
  qed
qed

lemma joinSlash_last_nonempty: "ps \<noteq> [] \<Longrightarrow> last ps \<noteq> [] \<Longrightarrow> joinSlash ps \<noteq> []"
  by (induction ps rule: joinSlash.induct) auto

lemma last_joinSlash:
  "ps \<noteq> [] \<Longrightarrow> last ps \<noteq> [] \<Longrightarrow> last (joinSlash ps) = last (last ps)"
proof (induction ps rule: joinSlash.induct)
  case 1
  then show ?case by simp
next
  case (2 x)
  then show ?case by simp
next
  case (3 x y ys)
  then have "joinSlash (y # ys) \<noteq> []" using joinSlash_last_nonempty [of "y # ys"] by simp
  then show ?case using 3 by simp
qed

lemma length_joinSlash_butlast:
  "list_all plainElem ps \<Longrightarrow> ps \<noteq> [] \<Longrightarrow> length (joinSlash (butlast ps)) < length (joinSlash ps)"
proof (induction ps rule: joinSlash.induct)
  case 1
  then show ?case by simp
next
  case (2 x)
  then show ?case by (simp add: plainElem_def)
next
  case (3 x y ys)
  then show ?case by (cases ys) auto
qed

lemma startsWith_absPath_append:
  "list_all plainElem js \<Longrightarrow> startsWith (absPath (js @ qs)) (absPath js)"
proof (cases "qs = [] \<or> js = []")
  case True
  then show ?thesis by (auto simp: startsWith_def absPath_def)
next
  case False
  then have "absPath (js @ qs) = absPath js @ CHR ''/'' # joinSlash qs"
    by (simp add: absPath_def joinSlash_append)
  then show ?thesis by (simp add: startsWith_def)
qed

lemma baseDir_under_jail:
  assumes "list_all plainElem js" "list_all plainElem qs"
  shows "startsWith (baseDirOf (absPath (js @ qs))) (absPath js) \<longleftrightarrow> qs \<noteq> []"
proof (cases "js @ qs = []")
  case True
  have "baseDirOf ''/'' = ''.''" by code_simp
  moreover have "\<not> startsWith ''.'' ''/''" by code_simp
  ultimately show ?thesis using True by (simp add: absPath_def)
next
  case False
  let ?ps = "js @ qs"
  have pl: "list_all plainElem ?ps" using assms by simp
  then have "last ?ps \<noteq> []" "CHR ''/'' \<notin> set (last ?ps)"
    using False last_in_set [of ?ps] by (auto simp: list_all_iff plainElem_def)
  then have "last (absPath ?ps) \<noteq> CHR ''/''"
    using False last_joinSlash [of ?ps] joinSlash_Nil_iff [OF pl]
    by (metis absPath_def last_ConsR last_in_set)
  then have bd: "baseDirOf (absPath ?ps) = absPath (butlast ?ps)"
    using Dir_absPath [OF pl False] by (simp add: baseDirOf_def Let_def absPath_def)
  show ?thesis
  proof (cases "qs = []")
    case True
    then have jne: "js \<noteq> []" using False by simp
    have "length (absPath (butlast js)) < length (absPath js)"
      using length_joinSlash_butlast [OF assms(1) jne] by (simp add: absPath_def)
    then have "\<not> startsWith (absPath (butlast js)) (absPath js)"
      by (simp add: startsWith_def)
    then show ?thesis using True bd by simp
  next
    case qne: False
    then have "butlast ?ps = js @ butlast qs" by (simp add: butlast_append)
    then show ?thesis using bd qne startsWith_absPath_append [OF assms(1)] by simp
  qed
qed

lemma parent_row_under_absolute_jail:
  assumes "generateIndexHtml e cfg upath q = Listing pg"
    and "Clean (jailRoot cfg) = jailRoot cfg" "IsAbs (jailRoot cfg)"
    and "Clean (localPathOf cfg upath) = localPathOf cfg upath"
    and "underRoot (jailRoot cfg) (localPathOf cfg upath)"
  shows "ParentRow \<in> set (pageRows pg) \<longleftrightarrow> localPathOf cfg upath \<noteq> jailRoot cfg"
proof -
  obtain js where js: "list_all plainElem js" "jailRoot cfg = absPath js"
    using clean_abs_form [OF assms(2,3)] by blast
  obtain qs where qs: "list_all plainElem qs" "localPathOf cfg upath = absPath (js @ qs)"
    using under_segments [OF js(1) assms(4)] assms(5) js(2) by metis
  obtain fis0 rs where r:
    "entryRows e cfg (localPathOf cfg upath)
       (Sort e (entryLess (modeBy (requestMode e cfg upath q))
                  (modeDir (requestMode e cfg upath q))) fis0) = Some rs"
    "pageRows pg =
       (if startsWith (baseDirOf (localPathOf cfg upath)) (jailRoot cfg) then [ParentRow]
        else []) @ rs"
    using generateIndexHtml_Listing [OF assms(1)] by metis
  have rs: "rs = map (entryRow e cfg (localPathOf cfg upath))
                   (filter (\<lambda>d. \<not> dotName d)
                      (Sort e (entryLess (modeBy (requestMode e cfg upath q))
                                 (modeDir (requestMode e cfg upath q))) fis0))"
    using entryRows_Some [OF r(1)] by simp
  have "\<forall>x\<in>set rs. x \<noteq> ParentRow" using rs entryRow_not_parent by auto
  then have "ParentRow \<notin> set rs" by blast
  then have "ParentRow \<in> set (pageRows pg)
             \<longleftrightarrow> startsWith (baseDirOf (localPathOf cfg upath)) (jailRoot cfg)"
    using r(2) by simp
  also have "\<dots> \<longleftrightarrow> qs \<noteq> []"
    using baseDir_under_jail [OF js(1) qs(1)] js(2) qs(2) by simp
  also have "\<dots> \<longleftrightarrow> localPathOf cfg upath \<noteq> jailRoot cfg"
  proof -
    have "absPath (js @ qs) = absPath js \<longleftrightarrow> js @ qs = js"
      using joinSlash_inj [of "js @ qs" js] js(1) qs(1) by (auto simp: absPath_def)
    then show ?thesis using js(2) qs(2) by simp
  qed
  finally show ?thesis .
qed

section \<open>Entries left out of a listing\<close>

text \<open>
  Claim C8. No row of a listing belongs to an entry whose name begins with a dot: the rows
  other than the parent row are the rows of the sorted entries whose names do not begin
  with a dot, in their order, and none of their names begins with a dot. The marker file
  \<^verbatim>\<open>.index-sort\<close> is such an entry.
\<close>

theorem hidden_entries_omitted:
  assumes "generateIndexHtml e cfg upath q = Listing pg"
  shows "(\<forall>r\<in>set (pageRows pg). r \<noteq> ParentRow \<longrightarrow> take 1 (rowName r) \<noteq> ''.'')
       \<and> (\<exists>fis0. Readdir e (localPathOf cfg upath) = Inr fis0
            \<and> filter (\<lambda>r. r \<noteq> ParentRow) (pageRows pg)
                = map (entryRow e cfg (localPathOf cfg upath))
                    (filter (\<lambda>d. \<not> dotName d)
                       (Sort e (entryLess (modeBy (requestMode e cfg upath q))
                                  (modeDir (requestMode e cfg upath q))) fis0)))"
proof -
  define fis where
    "fis = (\<lambda>fis0. Sort e (entryLess (modeBy (requestMode e cfg upath q))
                              (modeDir (requestMode e cfg upath q))) fis0)"
  obtain fis0 rs where r:
    "Readdir e (localPathOf cfg upath) = Inr fis0"
    "entryRows e cfg (localPathOf cfg upath) (fis fis0) = Some rs"
    "pageRows pg =
       (if startsWith (baseDirOf (localPathOf cfg upath)) (jailRoot cfg) then [ParentRow]
        else []) @ rs"
    using generateIndexHtml_Listing [OF assms] unfolding fis_def by metis
  have rs: "rs = map (entryRow e cfg (localPathOf cfg upath))
                   (filter (\<lambda>d. \<not> dotName d) (fis fis0))"
    and ne: "\<forall>d\<in>set (fis fis0). Name d \<noteq> []"
    using entryRows_Some [OF r(2)] by simp_all
  have first: "\<forall>x\<in>set rs. take 1 (rowName x) \<noteq> ''.''"
    using rs ne entryRow_first by auto
  have "\<forall>x\<in>set rs. x \<noteq> ParentRow" using rs entryRow_not_parent by auto
  then have "filter (\<lambda>r. r \<noteq> ParentRow) rs = rs" by (simp add: filter_id_conv)
  then have f: "filter (\<lambda>r. r \<noteq> ParentRow) (pageRows pg) = rs" using r(3) by simp
  have "\<forall>x\<in>set (pageRows pg). x \<noteq> ParentRow \<longrightarrow> take 1 (rowName x) \<noteq> ''.''"
    using first r(3) by auto
  then show ?thesis using r(1) f rs unfolding fis_def by blast
qed

theorem hidden_entries_omitted_witness:
  "generateIndexHtml musicDir cfgFtp ''/ftp/music'' []
     = Listing \<lparr>pageTitle = ''/ftp/music'', pageNameSort = ''name-asc'',
                pageSizeSort = ''size-asc'', pageDateSort = ''date-asc'',
                pageRows = musicByDate\<rparr>
   \<and> regularFile ''.index-sort'' 10 5 \<in> set (projr (Readdir musicDir ''/home/ftp/music''))
   \<and> length musicByDate = 4
   \<and> EntryRow ''/ftp/music/b.mp3'' ''b.mp3'' ''2.00&nbsp;MiB'' ''30'' [] \<in> set musicByDate
   \<and> take 1 (rowName (EntryRow ''/ftp/music/b.mp3'' ''b.mp3'' ''2.00&nbsp;MiB'' ''30'' []))
       \<noteq> ''.''"
proof -
  have h: "generateIndexHtml musicDir cfgFtp ''/ftp/music'' []
     = Listing \<lparr>pageTitle = ''/ftp/music'', pageNameSort = ''name-asc'',
                pageSizeSort = ''size-asc'', pageDateSort = ''date-asc'',
                pageRows = musicByDate\<rparr>"
    by code_simp
  have m: "regularFile ''.index-sort'' 10 5 \<in> set (projr (Readdir musicDir ''/home/ftp/music''))
     \<and> length musicByDate = 4
     \<and> EntryRow ''/ftp/music/b.mp3'' ''b.mp3'' ''2.00&nbsp;MiB'' ''30'' [] \<in> set musicByDate"
    by code_simp
  have "\<forall>r\<in>set musicByDate. r \<noteq> ParentRow \<longrightarrow> take 1 (rowName r) \<noteq> ''.''"
    using hidden_entries_omitted [OF h] by simp
  then show ?thesis using h m by blast
qed

section \<open>The size cell\<close>

text \<open>
  Claim C9. The size cell of a row is \<^verbatim>\<open>-\<close> for a directory. For any other entry of
  size n it is n divided by 1024 below 1 MiB, by 1024 squared below 1 GiB and by 1024 cubed
  from there on, printed with two decimals and followed by a non-breaking space and the
  unit KiB, MiB or GiB. For a size that a float64 holds exactly the printed hundredths are
  the nearest to the exact quotient. A file of 2,097,152 bytes is shown as 2.00 MiB and a
  file of 512 bytes as 0.50 KiB.
\<close>

theorem size_cell:
  "rowSize (entryRow e cfg lp dfi) =
     (if IsDir (followSymlink e lp dfi) then ''-''
      else if Size (followSymlink e lp dfi) < 1024 * 1024
        then Sprintf_02f (float64 (Size (followSymlink e lp dfi))) 10 @ ''&nbsp;KiB''
      else if Size (followSymlink e lp dfi) < 1024 * 1024 * 1024
        then Sprintf_02f (float64 (Size (followSymlink e lp dfi))) 20 @ ''&nbsp;MiB''
      else Sprintf_02f (float64 (Size (followSymlink e lp dfi))) 30 @ ''&nbsp;GiB'')
   \<and> (0 \<le> n \<and> n < 2 ^ 53 \<longrightarrow>
        float64 n = n \<and> 2 * \<bar>int (hundredths (float64 n) k) * 2 ^ k - 100 * n\<bar> \<le> 2 ^ k)
   \<and> rowSize (entryRow e cfg lp (regularFile name 2097152 t)) = ''2.00&nbsp;MiB''
   \<and> rowSize (entryRow e cfg lp (regularFile name 512 t)) = ''0.50&nbsp;KiB''"
proof -
  have cell: "rowSize (entryRow e cfg lp x) =
     (if IsDir (followSymlink e lp x) then ''-''
      else if Size (followSymlink e lp x) < 1024 * 1024
        then Sprintf_02f (float64 (Size (followSymlink e lp x))) 10 @ ''&nbsp;KiB''
      else if Size (followSymlink e lp x) < 1024 * 1024 * 1024
        then Sprintf_02f (float64 (Size (followSymlink e lp x))) 20 @ ''&nbsp;MiB''
      else Sprintf_02f (float64 (Size (followSymlink e lp x))) 30 @ ''&nbsp;GiB'')" for x
  proof (cases "IsDir (followSymlink e lp x)")
    case True
    then show ?thesis
      by (simp add: entryRow_def Let_def replaceSpaces_def EscapeString_def escapeChar_def)
  next
    case False
    then have "rowSize (entryRow e cfg lp x)
               = replaceSpaces (EscapeString (sizeTextOf (Size (followSymlink e lp x))))"
      by (simp add: entryRow_def Let_def)
    then show ?thesis using False by (simp only: sizeCell_text if_False)
  qed
  have near: "0 \<le> n \<and> n < 2 ^ 53 \<longrightarrow>
        float64 n = n \<and> 2 * \<bar>int (hundredths (float64 n) k) * 2 ^ k - 100 * n\<bar> \<le> 2 ^ k"
  proof
    assume n: "0 \<le> n \<and> n < 2 ^ 53"
    then have "float64 n = n" by (intro float64_exact) simp
    then show "float64 n = n \<and> 2 * \<bar>int (hundredths (float64 n) k) * 2 ^ k - 100 * n\<bar> \<le> 2 ^ k"
      using hundredths_near [of n k] n by simp
  qed
  have plain: "followSymlink e lp (regularFile name sz t) = regularFile name sz t" for sz
    by (simp add: followSymlink_def regularFile_def ModeSymlink_def)
  have nodir: "\<not> IsDir (regularFile name sz t)" for sz
    by (simp add: IsDir_def regularFile_def ModeDir_def)
  have sz: "Size (regularFile name sz t) = sz" for sz
    by (simp add: regularFile_def)
  have v1: "Sprintf_02f (float64 2097152) 20 = ''2.00''" by code_simp
  have v2: "Sprintf_02f (float64 512) 10 = ''0.50''" by code_simp
  have big: "rowSize (entryRow e cfg lp (regularFile name 2097152 t)) = ''2.00&nbsp;MiB''"
    unfolding cell plain using nodir v1 by (simp add: sz)
  have small: "rowSize (entryRow e cfg lp (regularFile name 512 t)) = ''0.50&nbsp;KiB''"
    unfolding cell plain using nodir v2 by (simp add: sz)
  show ?thesis using cell [of dfi] near big small by (intro conjI) blast+
qed

theorem size_cell_witness:
  "(0::int) \<le> 1536 \<and> (1536::int) < 2 ^ 53
   \<and> float64 1536 = 1536
   \<and> 2 * \<bar>int (hundredths (float64 1536) 10) * 2 ^ 10 - 100 * 1536\<bar> \<le> (2 ^ 10 :: int)
   \<and> hundredths (float64 1536) 10 = 150
   \<and> rowSize (entryRow noFiles cfgFtp ''/home/ftp'' (directory ''music'' 0)) = ''-''"
proof -
  have h: "(0::int) \<le> 1536 \<and> (1536::int) < 2 ^ 53" by simp
  have v: "hundredths (float64 1536) 10 = 150" by code_simp
  have d: "IsDir (followSymlink noFiles ''/home/ftp'' (directory ''music'' 0))" by code_simp
  have c: "rowSize (entryRow noFiles cfgFtp ''/home/ftp'' (directory ''music'' 0)) = ''-''"
    using size_cell [of noFiles cfgFtp "''/home/ftp''" "directory ''music'' 0" 1536 10] d
    by (simp only: if_True)
  have n: "float64 1536 = 1536
     \<and> 2 * \<bar>int (hundredths (float64 1536) 10) * 2 ^ 10 - 100 * 1536\<bar> \<le> (2 ^ 10 :: int)"
    using size_cell [of noFiles cfgFtp "''/home/ftp''" "directory ''music'' 0" 1536 10] h
    by blast
  show ?thesis using h v c n by blast
qed

section \<open>Symlinks inside a listing\<close>

text \<open>
  A listed symlink whose target can be read and inspected is rendered with the attributes
  of the target: a target that is a directory gives a trailing slash on the name and on
  the link, and the size \<^verbatim>\<open>-\<close>. When the target cannot be read or inspected the entry
  keeps its own attributes.
\<close>

lemma followSymlink_resolved:
  assumes "Mode dfi AND ModeSymlink \<noteq> 0"
    and "Readlink e (Join [lp, Name dfi]) = Inr target"
    and "Stat e (if IsAbs target then target else Join [lp, target]) = Inr tdfi"
  shows "followSymlink e lp dfi = tdfi"
  using assms by (cases "IsAbs target") (simp_all add: followSymlink_def Let_def)

lemma followSymlink_unresolved:
  assumes "Readlink e (Join [lp, Name dfi]) = Inl err
           \<or> (\<exists>target. Readlink e (Join [lp, Name dfi]) = Inr target
                \<and> Stat e (if IsAbs target then target else Join [lp, target]) = Inl err)"
  shows "followSymlink e lp dfi = dfi"
  using assms by (auto simp: followSymlink_def Let_def split: if_splits)

lemma symlink_to_directory_row:
  assumes "Mode dfi AND ModeSymlink \<noteq> 0"
    and "Readlink e (Join [lp, Name dfi]) = Inr target"
    and "Stat e (if IsAbs target then target else Join [lp, target]) = Inr tdfi"
    and "IsDir tdfi"
  shows "rowName (entryRow e cfg lp dfi) = EscapeString (Name dfi @ ''/'')"
    and "rowHref (entryRow e cfg lp dfi)
         = EscapeString (translateForProxy cfg (Join [lp, Name dfi]) @ ''/'')"
    and "rowSize (entryRow e cfg lp dfi) = ''-''"
  using assms(4) followSymlink_resolved [OF assms(1-3)]
  by (simp_all add: entryRow_def Let_def replaceSpaces_def EscapeString_def escapeChar_def)

text \<open>
  Claim C10. A listed symlink whose target resolves to a directory is to be classified by
  its target: sorted into the directory-first class, shown with a trailing slash and with
  the size \<^verbatim>\<open>-\<close>.

  The row is rendered so, but the slice is sorted before the symlinks are followed, by the
  attributes of the symlink itself, which is not a directory. In \<^verbatim>\<open>/home/ftp\<close> with the
  file \<^verbatim>\<open>a.txt\<close> and the symlink \<^verbatim>\<open>z\<close> to a directory, no sorted slice has \<^verbatim>\<open>z\<close> first,
  and the listing shows the directory row \<^verbatim>\<open>z/\<close> after the file row \<^verbatim>\<open>a.txt\<close>.
\<close>

theorem symlinked_directory_sorted_as_file:
  "Readdir linkedDir ''/home/ftp'' = Inr [symlink ''z'' 7, regularFile ''a.txt'' 512 3]
   \<and> IsDir (followSymlink linkedDir ''/home/ftp'' (symlink ''z'' 7))
   \<and> \<not> IsDir (symlink ''z'' 7)
   \<and> \<not> IsSorted (entryLess sortByName sortAscending)
          [symlink ''z'' 7, regularFile ''a.txt'' 512 3]
   \<and> IsSorted (entryLess sortByName sortAscending)
          [regularFile ''a.txt'' 512 3, symlink ''z'' 7]
   \<and> processRequest linkedDir cfgFtp ''/ftp'' []
       = Listing \<lparr>pageTitle = ''/ftp'', pageNameSort = ''name-asc'',
                  pageSizeSort = ''size-asc'', pageDateSort = ''date-asc'',
                  pageRows =
                    [EntryRow ''/ftp/a.txt'' ''a.txt'' ''0.50&nbsp;KiB'' ''3'' [],
                     EntryRow ''/ftp/z/'' ''z/'' ''-'' ''9'' []]\<rparr>"
  by code_simp

end
